theory Spec2Isabelle
  imports Main "HOL-Library.Word"
begin

unbundle bit_operations_syntax

section \<open>Machine types\<close>

type_synonym byte = "8 word"

section \<open>FSK tag decoder: the subcarrier windows (iso15693.c)\<close>

text \<open>
  The two macros that classify a frequency sample:
  \<^verbatim>\<open>#define FREQ_IS_484(f)    (f >= 26 && f <= 30)\<close> and
  \<^verbatim>\<open>#define FREQ_IS_424(f)    (f >= 30 && f <= 34)\<close>.
  The sample is a \<^verbatim>\<open>uint8_t\<close>; the comparisons are unsigned.
\<close>

definition FREQ_IS_484 :: "byte \<Rightarrow> bool" where
  "FREQ_IS_484 f = (26 \<le> f \<and> f \<le> 30)"

definition FREQ_IS_424 :: "byte \<Rightarrow> bool" where
  "FREQ_IS_424 f = (30 \<le> f \<and> f \<le> 34)"

section \<open>Anticollision CSN (iclass.c)\<close>

text \<open>
  \<^verbatim>\<open>rotatedCSN[i] = (originalCSN[i] >> 3) | (originalCSN[(i+1)%8] << 5);\<close>
  Both operands are promoted to \<^verbatim>\<open>int\<close> before shifting and the result is
  truncated to a byte by the assignment.
\<close>

definition rot_byte :: "byte \<Rightarrow> byte \<Rightarrow> byte" where
  "rot_byte a b =
     ucast (drop_bit 3 (ucast a :: 32 word) OR push_bit 5 (ucast b :: 32 word))"

definition rotateCSN :: "byte list \<Rightarrow> byte list" where
  "rotateCSN originalCSN =
     map (\<lambda>i. rot_byte (originalCSN ! i) (originalCSN ! ((i + 1) mod 8))) [0..<8]"

text \<open>The inverse rotation, used only to state that \<open>rotateCSN\<close> is onto.\<close>

definition unrotateCSN :: "byte list \<Rightarrow> byte list" where
  "unrotateCSN r =
     map (\<lambda>i. push_bit 3 (r ! i) OR drop_bit 5 (r ! ((i + 7) mod 8))) [0..<8]"

section \<open>Frame encoders for the reader direction (iso15693.c)\<close>

text \<open>
  The transmit buffer \<^verbatim>\<open>ToSend\<close> with its two cursors. \<open>ToSend\<close> holds the bytes
  \<^verbatim>\<open>ToSend[0..ToSendMax]\<close> written so far, so \<^verbatim>\<open>ToSendMax\<close> is
  \<open>length ToSend - 1\<close> while a frame is built and \<open>length ToSend\<close> after the
  closing \<^verbatim>\<open>ToSendMax++\<close>.
\<close>

record tosend =
  ToSend :: "byte list"
  ToSendBit :: nat

text \<open>
  Modelled from the spec: \<^verbatim>\<open>ToSendReset\<close> and \<^verbatim>\<open>ToSendStuffBit\<close> are helpers of the
  repository that are not among the sources. The encoder "selects one pulse position out of
  256 slot positions" by stuffing single bits; the helper appends one bit to the buffer,
  most significant bit of each byte first, opening a fresh zero byte when the current one
  is full. \<^verbatim>\<open>ToSendReset\<close> empties the buffer and marks the current byte as full.
\<close>

definition ToSendReset :: tosend where
  "ToSendReset = \<lparr>ToSend = [], ToSendBit = 8\<rparr>"

definition ToSendStuffBit :: "bool \<Rightarrow> tosend \<Rightarrow> tosend" where
  "ToSendStuffBit b t =
     (let t1 = (if ToSendBit t \<ge> 8 then t\<lparr>ToSend := ToSend t @ [0], ToSendBit := 0\<rparr> else t);
          t2 = (if b then t1\<lparr>ToSend := butlast (ToSend t1) @
                               [last (ToSend t1) OR push_bit (7 - ToSendBit t1) 1]\<rparr>
                else t1)
      in t2\<lparr>ToSendBit := ToSendBit t2 + 1\<rparr>)"

text \<open>\<^verbatim>\<open>ToSend[++ToSendMax] = v\<close>\<close>

definition ToSendByte :: "byte \<Rightarrow> tosend \<Rightarrow> tosend" where
  "ToSendByte v t = t\<lparr>ToSend := ToSend t @ [v]\<rparr>"

text \<open>
  \<^verbatim>\<open>CodeIso15693AsReader\<close>: "1 out of 4" coding. The inner loop runs over
  \<open>j = 0, 2, 4, 6\<close>; \<^verbatim>\<open>these = (cmd[i] >> j) & 0x03\<close> selects one of four patterns.
\<close>

definition one_of_4_pattern :: "byte \<Rightarrow> byte" where
  "one_of_4_pattern these =
     (if these = 0 then 0x40 else if these = 1 then 0x10
      else if these = 2 then 0x04 else 0x01)"

definition code_1of4_byte :: "byte \<Rightarrow> tosend \<Rightarrow> tosend" where
  "code_1of4_byte c t =
     fold (\<lambda>j. ToSendByte (one_of_4_pattern (drop_bit j c AND 0x03))) [0, 2, 4, 6] t"

definition CodeIso15693AsReader :: "byte list \<Rightarrow> byte list" where
  "CodeIso15693AsReader cmd =
     ToSend (ToSendByte 0x20 (fold code_1of4_byte cmd (ToSendByte 0x84 ToSendReset)))"

text \<open>
  \<^verbatim>\<open>CodeIso15693AsReader256\<close>: "1 out of 256" coding. For every byte the loop over
  \<open>j = 0 .. 255\<close> stuffs the bit pair 0,1 at the slot \<open>j = cmd[i]\<close> and 0,0 elsewhere.
\<close>

definition code_1of256_slot :: "byte \<Rightarrow> nat \<Rightarrow> tosend \<Rightarrow> tosend" where
  "code_1of256_slot c j t =
     (if unat c = j then ToSendStuffBit True (ToSendStuffBit False t)
      else ToSendStuffBit False (ToSendStuffBit False t))"

definition code_1of256_byte :: "byte \<Rightarrow> tosend \<Rightarrow> tosend" where
  "code_1of256_byte c t = fold (code_1of256_slot c) [0..<256] t"

definition CodeIso15693AsReader256 :: "byte list \<Rightarrow> byte list" where
  "CodeIso15693AsReader256 cmd =
     ToSend (ToSendByte 0x20 (fold code_1of256_byte cmd (ToSendByte 0x81 ToSendReset)))"

text \<open>
  \<^verbatim>\<open>CodeIso15693AsTag\<close>: tag direction, two waveform bytes per data byte through the
  table \<^verbatim>\<open>encode_4bits\<close>, between the SOF \<open>0x1D\<close> and the EOF \<open>0xB8\<close>.
\<close>

definition encode_4bits :: "byte list" where
  "encode_4bits = [0xaa, 0x6a, 0x9a, 0x5a, 0xa6, 0x66, 0x96, 0x56,
                   0xa9, 0x69, 0x99, 0x59, 0xa5, 0x65, 0x95, 0x55]"

definition code_tag_byte :: "byte \<Rightarrow> tosend \<Rightarrow> tosend" where
  "code_tag_byte c t =
     ToSendByte (encode_4bits ! unat (drop_bit 4 c))
       (ToSendByte (encode_4bits ! unat (c AND 0xF)) t)"

definition CodeIso15693AsTag :: "byte list \<Rightarrow> byte list" where
  "CodeIso15693AsTag cmd =
     ToSend (ToSendByte 0xB8 (fold code_tag_byte cmd (ToSendByte 0x1D ToSendReset)))"

text \<open>\<^verbatim>\<open>CodeIClassTagSOF\<close> (iclass.c): the SOF alone.\<close>

definition CodeIClassTagSOF :: "byte list" where
  "CodeIClassTagSOF = ToSend (ToSendByte 0x1D ToSendReset)"

section \<open>Decoder for reader commands (iso15693.c)\<close>

datatype reader_state =
    STATE_READER_UNSYNCD
  | STATE_READER_AWAIT_1ST_FALLING_EDGE_OF_SOF
  | STATE_READER_AWAIT_1ST_RISING_EDGE_OF_SOF
  | STATE_READER_AWAIT_2ND_FALLING_EDGE_OF_SOF
  | STATE_READER_AWAIT_2ND_RISING_EDGE_OF_SOF
  | STATE_READER_AWAIT_END_OF_SOF_1_OUT_OF_4
  | STATE_READER_RECEIVE_DATA_1_OUT_OF_4
  | STATE_READER_RECEIVE_DATA_1_OUT_OF_256

datatype reader_coding = CODING_1_OUT_OF_4 | CODING_1_OUT_OF_256

text \<open>
  \<^verbatim>\<open>struct DecodeReader\<close>. The \<^verbatim>\<open>int\<close> fields are \<open>int\<close>; inside the decoder they
  stay far below \<open>2^31\<close> (\<open>posCount\<close> is reset in every waiting state, the sums count at
  most four samples, \<open>byteCount\<close> stops one above \<open>byteCountMax\<close>). \<open>bitCount\<close> is a
  \<^verbatim>\<open>uint8_t\<close> and wraps from 255 to 0, which the 1 out of 256 decoder relies on.
  \<open>output\<close> is the memory the output pointer aims at, addressed by index: the caller owns
  the indices below \<open>byteCountMax\<close> only.
\<close>

record DecodeReader =
  r_state :: reader_state
  r_Coding :: reader_coding
  r_shiftReg :: byte
  r_bitCount :: byte
  r_byteCount :: int
  r_byteCountMax :: int
  r_posCount :: int
  r_sum1 :: int
  r_sum2 :: int
  r_output :: "nat \<Rightarrow> byte"

text \<open>The caller's \<^verbatim>\<open>DecodeReader_t DecodeReader = {0}\<close>.\<close>

definition DecodeReader_zero :: "(nat \<Rightarrow> byte) \<Rightarrow> DecodeReader" where
  "DecodeReader_zero mem =
     \<lparr>r_state = STATE_READER_UNSYNCD, r_Coding = CODING_1_OUT_OF_4, r_shiftReg = 0,
      r_bitCount = 0, r_byteCount = 0, r_byteCountMax = 0, r_posCount = 0,
      r_sum1 = 0, r_sum2 = 0, r_output = mem\<rparr>"

text \<open>
  \<^verbatim>\<open>DecodeReaderInit(DecodeReader, data, max_len)\<close>: the capacity is a
  \<^verbatim>\<open>uint16_t\<close>, stored into the \<^verbatim>\<open>int\<close> field \<open>byteCountMax\<close>.
\<close>

definition DecodeReaderInit ::
  "(nat \<Rightarrow> byte) \<Rightarrow> 16 word \<Rightarrow> DecodeReader \<Rightarrow> DecodeReader" where
  "DecodeReaderInit data max_len d =
     d\<lparr>r_output := data, r_byteCountMax := uint max_len, r_state := STATE_READER_UNSYNCD,
       r_byteCount := 0, r_bitCount := 0, r_posCount := 1, r_shiftReg := 0\<rparr>"

definition DecodeReaderReset :: "DecodeReader \<Rightarrow> DecodeReader" where
  "DecodeReaderReset d = d\<lparr>r_state := STATE_READER_UNSYNCD\<rparr>"

text \<open>
  The first lines of both receive states: \<^verbatim>\<open>bit = !!bit; posCount++;\<close> and the
  accumulation of the two half-slot sums.
\<close>

definition reader_accumulate :: "byte \<Rightarrow> DecodeReader \<Rightarrow> DecodeReader" where
  "reader_accumulate bit0 d0 =
     (let b = (if bit0 \<noteq> 0 then 1 else 0 :: int);
          d = d0\<lparr>r_posCount := r_posCount d0 + 1\<rparr>
      in if r_posCount d = 1 then d\<lparr>r_sum1 := b\<rparr>
         else if r_posCount d \<le> 4 then d\<lparr>r_sum1 := r_sum1 d + b\<rparr>
         else if r_posCount d = 5 then d\<lparr>r_sum2 := b\<rparr>
         else d\<lparr>r_sum2 := r_sum2 d + b\<rparr>)"

text \<open>
  \<^verbatim>\<open>output[byteCount++] = shiftReg; if (byteCount > byteCountMax) Reset\<close>
\<close>

definition reader_store_byte :: "DecodeReader \<Rightarrow> DecodeReader" where
  "reader_store_byte d =
     (let d1 = d\<lparr>r_output := (r_output d)(nat (r_byteCount d) := r_shiftReg d),
                r_byteCount := r_byteCount d + 1\<rparr>
      in if r_byteCount d1 > r_byteCountMax d1 then DecodeReaderReset d1 else d1)"

text \<open>
  \<^verbatim>\<open>shiftReg >>= 2; shiftReg |= (bitCount << 6);\<close> with the promotion of
  \<open>bitCount\<close> to \<^verbatim>\<open>int\<close> and the truncation of the result to a byte.
\<close>

definition shift_in_2bits :: "byte \<Rightarrow> byte \<Rightarrow> byte" where
  "shift_in_2bits sr bc =
     ucast ((ucast (drop_bit 2 sr) :: 32 word) OR push_bit 6 (ucast bc :: 32 word))"

definition receive_1_out_of_4 :: "byte \<Rightarrow> DecodeReader \<Rightarrow> bool \<times> DecodeReader" where
  "receive_1_out_of_4 bit0 d0 =
     (let d1 = reader_accumulate bit0 d0
      in if r_posCount d1 = 8 then
           (let d2 = d1\<lparr>r_posCount := 0\<rparr>;
                eof = (r_sum1 d2 \<le> 1 \<and> r_sum2 d2 \<ge> 3);
                d3 = (if eof then DecodeReaderReset d2 else d2)
            in if eof \<and> r_byteCount d3 \<noteq> 0 then (True, d3)
               else
                 (let d4 = (if r_sum1 d3 \<ge> 3 \<and> r_sum2 d3 \<le> 1
                            then d3\<lparr>r_shiftReg := shift_in_2bits (r_shiftReg d3) (r_bitCount d3)\<rparr>
                            else d3)
                  in if r_bitCount d4 = 15
                     then (False, (reader_store_byte d4)\<lparr>r_bitCount := 0, r_shiftReg := 0\<rparr>)
                     else (False, d4\<lparr>r_bitCount := r_bitCount d4 + 1\<rparr>)))
         else (False, d1))"

definition receive_1_out_of_256 :: "byte \<Rightarrow> DecodeReader \<Rightarrow> bool \<times> DecodeReader" where
  "receive_1_out_of_256 bit0 d0 =
     (let d1 = reader_accumulate bit0 d0
      in if r_posCount d1 = 8 then
           (let d2 = d1\<lparr>r_posCount := 0\<rparr>;
                eof = (r_sum1 d2 \<le> 1 \<and> r_sum2 d2 \<ge> 3);
                d3 = (if eof then DecodeReaderReset d2 else d2)
            in if eof \<and> r_byteCount d3 \<noteq> 0 then (True, d3)
               else
                 (let d4 = (if r_sum1 d3 \<ge> 3 \<and> r_sum2 d3 \<le> 1
                            then d3\<lparr>r_shiftReg := r_bitCount d3\<rparr> else d3);
                      d5 = (if r_bitCount d4 = 255 then reader_store_byte d4 else d4)
                  in (False, d5\<lparr>r_bitCount := r_bitCount d5 + 1\<rparr>)))
         else (False, d1))"

definition Handle15693SampleFromReader :: "byte \<Rightarrow> DecodeReader \<Rightarrow> bool \<times> DecodeReader" where
  "Handle15693SampleFromReader bit0 d =
     (case r_state d of
        STATE_READER_UNSYNCD \<Rightarrow>
          (False, if bit0 \<noteq> 0 then d\<lparr>r_state := STATE_READER_AWAIT_1ST_FALLING_EDGE_OF_SOF\<rparr> else d)
      | STATE_READER_AWAIT_1ST_FALLING_EDGE_OF_SOF \<Rightarrow>
          (False, if bit0 = 0
                  then d\<lparr>r_posCount := 1, r_state := STATE_READER_AWAIT_1ST_RISING_EDGE_OF_SOF\<rparr>
                  else d)
      | STATE_READER_AWAIT_1ST_RISING_EDGE_OF_SOF \<Rightarrow>
          (let d1 = d\<lparr>r_posCount := r_posCount d + 1\<rparr>
           in (False,
               if bit0 \<noteq> 0 then
                 (if r_posCount d1 < 4
                  then d1\<lparr>r_state := STATE_READER_AWAIT_1ST_FALLING_EDGE_OF_SOF\<rparr>
                  else d1\<lparr>r_state := STATE_READER_AWAIT_2ND_FALLING_EDGE_OF_SOF\<rparr>)
               else (if r_posCount d1 > 5 then DecodeReaderReset d1 else d1)))
      | STATE_READER_AWAIT_2ND_FALLING_EDGE_OF_SOF \<Rightarrow>
          (let d1 = d\<lparr>r_posCount := r_posCount d + 1\<rparr>
           in (False,
               if bit0 = 0 then
                 (if r_posCount d1 < 20 then DecodeReaderReset d1
                  else if r_posCount d1 < 23
                  then d1\<lparr>r_Coding := CODING_1_OUT_OF_4,
                          r_state := STATE_READER_AWAIT_2ND_RISING_EDGE_OF_SOF\<rparr>
                  else if r_posCount d1 < 28 then DecodeReaderReset d1
                  else d1\<lparr>r_Coding := CODING_1_OUT_OF_256,
                          r_state := STATE_READER_AWAIT_2ND_RISING_EDGE_OF_SOF\<rparr>)
               else (if r_posCount d1 > 29
                     then d1\<lparr>r_state := STATE_READER_AWAIT_1ST_FALLING_EDGE_OF_SOF\<rparr>
                     else d1)))
      | STATE_READER_AWAIT_2ND_RISING_EDGE_OF_SOF \<Rightarrow>
          (let d1 = d\<lparr>r_posCount := r_posCount d + 1\<rparr>
           in (False,
               if bit0 \<noteq> 0 then
                 (if r_Coding d1 = CODING_1_OUT_OF_256 then
                    (if r_posCount d1 < 32
                     then d1\<lparr>r_state := STATE_READER_AWAIT_1ST_FALLING_EDGE_OF_SOF\<rparr>
                     else d1\<lparr>r_posCount := 1, r_bitCount := 0, r_byteCount := 0, r_sum1 := 1,
                             r_state := STATE_READER_RECEIVE_DATA_1_OUT_OF_256\<rparr>)
                  else
                    (if r_posCount d1 < 24
                     then d1\<lparr>r_state := STATE_READER_AWAIT_1ST_FALLING_EDGE_OF_SOF\<rparr>
                     else d1\<lparr>r_posCount := 1,
                             r_state := STATE_READER_AWAIT_END_OF_SOF_1_OUT_OF_4\<rparr>))
               else
                 (if r_Coding d1 = CODING_1_OUT_OF_256 then
                    (if r_posCount d1 > 34 then DecodeReaderReset d1 else d1)
                  else
                    (if r_posCount d1 > 26 then DecodeReaderReset d1 else d1))))
      | STATE_READER_AWAIT_END_OF_SOF_1_OUT_OF_4 \<Rightarrow>
          (let d1 = d\<lparr>r_posCount := r_posCount d + 1\<rparr>
           in (False,
               if bit0 \<noteq> 0 then
                 (if r_posCount d1 = 9
                  then d1\<lparr>r_posCount := 1, r_bitCount := 0, r_byteCount := 0, r_sum1 := 1,
                          r_state := STATE_READER_RECEIVE_DATA_1_OUT_OF_4\<rparr>
                  else d1)
               else DecodeReaderReset d1))
      | STATE_READER_RECEIVE_DATA_1_OUT_OF_4 \<Rightarrow> receive_1_out_of_4 bit0 d
      | STATE_READER_RECEIVE_DATA_1_OUT_OF_256 \<Rightarrow> receive_1_out_of_256 bit0 d)"

text \<open>
  The sample loop of \<^verbatim>\<open>GetIso15693CommandFromReader\<close>: one call per sample until
  the decoder reports a frame. The result is the flag \<open>gotFrame\<close> and the decoder.
\<close>

fun feed_reader :: "byte list \<Rightarrow> DecodeReader \<Rightarrow> bool \<times> DecodeReader" where
  "feed_reader [] d = (False, d)"
| "feed_reader (b # bs) d =
     (case Handle15693SampleFromReader b d of
        (True, d') \<Rightarrow> (True, d')
      | (False, d') \<Rightarrow> feed_reader bs d')"

text \<open>The received frame: \<^verbatim>\<open>output[0 .. byteCount - 1]\<close>.\<close>

definition reader_frame :: "DecodeReader \<Rightarrow> byte list" where
  "reader_frame d = map (r_output d) [0..<nat (r_byteCount d)]"

text \<open>
  The air interface between the encoder and the decoder. \<^verbatim>\<open>TransmitTo15693Tag\<close> sends
  the bits of \<^verbatim>\<open>ToSend\<close> most significant bit first, a 1 bit as a modulation pause.
  The decoder "is called 4 times per bit" and reads an unmodulated carrier as 1, so every
  transmitted bit reaches it as four samples of the opposite value.
\<close>

definition tosend_bits :: "byte list \<Rightarrow> bool list" where
  "tosend_bits bs = concat (map (\<lambda>b. map (\<lambda>i. bit b (7 - i)) [0..<8]) bs)"

definition reader_samples :: "byte list \<Rightarrow> byte list" where
  "reader_samples bs =
     concat (map (\<lambda>m. replicate 4 (if m then 0 else 1)) (tosend_bits bs))"

section \<open>Decoder for tag responses, one subcarrier (iso15693.c)\<close>

datatype tag_state =
    STATE_TAG_SOF_LOW
  | STATE_TAG_SOF_RISING_EDGE
  | STATE_TAG_SOF_HIGH
  | STATE_TAG_SOF_HIGH_END
  | STATE_TAG_RECEIVING_DATA
  | STATE_TAG_EOF
  | STATE_TAG_EOF_TAIL

datatype tag_lastBit = LOGIC0 | LOGIC1 | SOF_PART1 | SOF_PART2

text \<open>
  \<^verbatim>\<open>struct DecodeTag\<close>. The amplitude and \<open>previous_amplitude\<close> are \<^verbatim>\<open>uint16_t\<close>
  and enter every comparison promoted to \<^verbatim>\<open>int\<close>, which \<open>uint\<close> writes out; the
  \<^verbatim>\<open>int\<close> fields are \<open>int\<close>. \<open>t_output\<close> is the memory at the output pointer, of which
  the caller owns the indices below \<open>max_len\<close>.
\<close>

record DecodeTag =
  t_state :: tag_state
  t_bitCount :: int
  t_posCount :: int
  t_lastBit :: tag_lastBit
  t_shiftReg :: "16 word"
  t_max_len :: "16 word"
  t_output :: "nat \<Rightarrow> byte"
  t_len :: int
  t_sum1 :: int
  t_sum2 :: int
  t_threshold_sof :: int
  t_threshold_half :: int
  t_previous_amplitude :: "16 word"

text \<open>C's \<^verbatim>\<open>x / 2\<close> on \<^verbatim>\<open>int\<close> truncates towards zero.\<close>

definition c_half :: "int \<Rightarrow> int" where
  "c_half x = (if x < 0 then - ((- x) div 2) else x div 2)"

definition NOISE_THRESHOLD :: int where
  "NOISE_THRESHOLD = 160"

text \<open>\<^verbatim>\<open>(-1 - NOISE_THRESHOLD)\<close> stored into a \<^verbatim>\<open>uint16_t\<close>.\<close>

definition MAX_PREVIOUS_AMPLITUDE :: "16 word" where
  "MAX_PREVIOUS_AMPLITUDE = word_of_int (- 1 - NOISE_THRESHOLD)"

text \<open>The caller's \<^verbatim>\<open>DecodeTag_t DecodeTag = { 0 }\<close>.\<close>

definition DecodeTag_zero :: "(nat \<Rightarrow> byte) \<Rightarrow> DecodeTag" where
  "DecodeTag_zero mem =
     \<lparr>t_state = STATE_TAG_SOF_LOW, t_bitCount = 0, t_posCount = 0, t_lastBit = LOGIC0,
      t_shiftReg = 0, t_max_len = 0, t_output = mem, t_len = 0, t_sum1 = 0, t_sum2 = 0,
      t_threshold_sof = 0, t_threshold_half = 0, t_previous_amplitude = 0\<rparr>"

definition DecodeTagInit :: "(nat \<Rightarrow> byte) \<Rightarrow> 16 word \<Rightarrow> DecodeTag \<Rightarrow> DecodeTag" where
  "DecodeTagInit data max_len d =
     d\<lparr>t_previous_amplitude := MAX_PREVIOUS_AMPLITUDE, t_posCount := 0,
       t_state := STATE_TAG_SOF_LOW, t_output := data, t_max_len := max_len\<rparr>"

text \<open>
  The three lines that give up a frame:
  \<^verbatim>\<open>posCount = 0; previous_amplitude = amplitude; state = STATE_TAG_SOF_LOW;\<close>
\<close>

definition tag_restart :: "16 word \<Rightarrow> DecodeTag \<Rightarrow> DecodeTag" where
  "tag_restart amplitude d =
     d\<lparr>t_posCount := 0, t_previous_amplitude := amplitude, t_state := STATE_TAG_SOF_LOW\<rparr>"

text \<open>
  The head of the three sampling states: reset the sums at position 1, add the sample to
  the first or the second half.
\<close>

definition tag_accumulate :: "16 word \<Rightarrow> bool \<Rightarrow> DecodeTag \<Rightarrow> DecodeTag" where
  "tag_accumulate amplitude recv_speed d0 =
     (let d = (if t_posCount d0 = 1 then d0\<lparr>t_sum1 := 0, t_sum2 := 0\<rparr> else d0)
      in if t_posCount d \<le> (if recv_speed then 4 else 16)
         then d\<lparr>t_sum1 := t_sum1 d + uint amplitude\<rparr>
         else d\<lparr>t_sum2 := t_sum2 d + uint amplitude\<rparr>)"

text \<open>\<^verbatim>\<open>output[len] = shiftReg; len++;\<close> The store truncates the register to a byte.\<close>

definition tag_store_byte :: "DecodeTag \<Rightarrow> DecodeTag" where
  "tag_store_byte d =
     d\<lparr>t_output := (t_output d)(nat (t_len d) := ucast (t_shiftReg d)), t_len := t_len d + 1\<rparr>"

definition tag_receiving_data :: "16 word \<Rightarrow> bool \<Rightarrow> DecodeTag \<Rightarrow> bool \<times> DecodeTag" where
  "tag_receiving_data amplitude recv_speed d0 =
     (let d = tag_accumulate amplitude recv_speed d0;
          th = t_threshold_half d;
          next = (\<lambda>e. (False, e\<lparr>t_posCount := 1\<rparr>))
      in if t_posCount d = (if recv_speed then 8 else 32) then
           (if t_sum1 d > th \<and> t_sum2 d > th then
              (if t_lastBit d = LOGIC0 then next (d\<lparr>t_state := STATE_TAG_EOF\<rparr>)
               else next (tag_restart amplitude d))
            else if t_sum1 d < th \<and> t_sum2 d > th then
              (if t_lastBit d = SOF_PART1 then next (d\<lparr>t_lastBit := SOF_PART2\<rparr>)
               else
                 (let d1 = d\<lparr>t_lastBit := LOGIC1,
                             t_shiftReg := drop_bit 1 (t_shiftReg d) OR 0x80,
                             t_bitCount := t_bitCount d + 1\<rparr>
                  in if t_bitCount d1 = 8 then
                       (let d2 = tag_store_byte d1
                        in if t_len d2 > uint (t_max_len d2) then (True, d2)
                           else next (d2\<lparr>t_bitCount := 0, t_shiftReg := 0\<rparr>))
                     else next d1))
            else if t_sum1 d > th \<and> t_sum2 d < th then
              (if t_lastBit d = SOF_PART1 then next (tag_restart amplitude d)
               else
                 (let d1 = d\<lparr>t_lastBit := LOGIC0,
                             t_shiftReg := drop_bit 1 (t_shiftReg d),
                             t_bitCount := t_bitCount d + 1\<rparr>
                  in if t_bitCount d1 = 8 then
                       (let d2 = tag_store_byte d1;
                            d3 = (if t_len d2 > uint (t_max_len d2)
                                  then tag_restart amplitude d2 else d2)
                        in next (d3\<lparr>t_bitCount := 0, t_shiftReg := 0\<rparr>))
                     else next d1))
            else
              (if t_lastBit d = SOF_PART2 then (True, d)
               else next (d\<lparr>t_posCount := 0, t_state := STATE_TAG_SOF_LOW\<rparr>)))
         else (False, d\<lparr>t_posCount := t_posCount d + 1\<rparr>))"

definition Handle15693SamplesFromTag ::
  "16 word \<Rightarrow> bool \<Rightarrow> DecodeTag \<Rightarrow> bool \<times> DecodeTag" where
  "Handle15693SamplesFromTag amplitude recv_speed d =
     (case t_state d of
        STATE_TAG_SOF_LOW \<Rightarrow>
          (False,
           if uint amplitude > NOISE_THRESHOLD + uint (t_previous_amplitude d) then
             (if t_posCount d > 10
              then d\<lparr>t_threshold_sof := uint amplitude - uint (t_previous_amplitude d),
                     t_threshold_half := 0, t_state := STATE_TAG_SOF_RISING_EDGE\<rparr>
              else d\<lparr>t_posCount := 0\<rparr>)
           else d\<lparr>t_posCount := t_posCount d + 1, t_previous_amplitude := amplitude\<rparr>)
      | STATE_TAG_SOF_RISING_EDGE \<Rightarrow>
          (let rise = uint amplitude - uint (t_previous_amplitude d);
               d1 = (if rise > t_threshold_sof d then
                       (if uint amplitude - t_threshold_sof d > t_threshold_sof d
                        then d\<lparr>t_posCount := 1\<rparr> else d\<lparr>t_posCount := 2\<rparr>)
                         \<lparr>t_threshold_sof := c_half rise\<rparr>
                     else d\<lparr>t_posCount := 2, t_threshold_sof := c_half (t_threshold_sof d)\<rparr>)
           in (False, d1\<lparr>t_state := STATE_TAG_SOF_HIGH\<rparr>))
      | STATE_TAG_SOF_HIGH \<Rightarrow>
          (False,
           if uint amplitude > t_threshold_sof d then
             (let d1 = d\<lparr>t_posCount := t_posCount d + 1\<rparr>;
                  d2 = (if t_posCount d1 > 2
                        then d1\<lparr>t_threshold_half := t_threshold_half d1 + uint amplitude\<rparr>
                        else d1)
              in if t_posCount d2 = (if recv_speed then 10 else 40)
                 then d2\<lparr>t_threshold_half := t_threshold_half d2 div 4,
                         t_state := STATE_TAG_SOF_HIGH_END\<rparr>
                 else d2)
           else d\<lparr>t_posCount := 1, t_previous_amplitude := amplitude,
                  t_state := STATE_TAG_SOF_LOW\<rparr>)
      | STATE_TAG_SOF_HIGH_END \<Rightarrow>
          (False,
           if t_posCount d = (if recv_speed then 13 else 52) \<and> uint amplitude < t_threshold_sof d
           then d\<lparr>t_lastBit := SOF_PART1, t_shiftReg := 0, t_bitCount := 0, t_len := 0,
                  t_sum1 := uint amplitude, t_sum2 := 0, t_posCount := 2,
                  t_state := STATE_TAG_RECEIVING_DATA\<rparr>
           else
             (let d1 = d\<lparr>t_posCount := t_posCount d + 1\<rparr>
              in if t_posCount d1 > (if recv_speed then 13 else 52)
                 then tag_restart amplitude d1 else d1))
      | STATE_TAG_RECEIVING_DATA \<Rightarrow> tag_receiving_data amplitude recv_speed d
      | STATE_TAG_EOF \<Rightarrow>
          (let d1 = tag_accumulate amplitude recv_speed d
           in if t_posCount d1 = (if recv_speed then 8 else 32) then
                (if t_sum1 d1 > t_threshold_half d1 \<and> t_sum2 d1 < t_threshold_half d1
                 then (False, d1\<lparr>t_state := STATE_TAG_EOF_TAIL, t_posCount := 1\<rparr>)
                 else (False, (tag_restart amplitude d1)\<lparr>t_posCount := 1\<rparr>))
              else (False, d1\<lparr>t_posCount := t_posCount d1 + 1\<rparr>))
      | STATE_TAG_EOF_TAIL \<Rightarrow>
          (let d1 = tag_accumulate amplitude recv_speed d
           in if t_posCount d1 = (if recv_speed then 8 else 32) then
                (if t_sum1 d1 < t_threshold_half d1 \<and> t_sum2 d1 < t_threshold_half d1
                 then (True, d1)
                 else (False, (tag_restart amplitude d1)\<lparr>t_posCount := 1\<rparr>))
              else (False, d1\<lparr>t_posCount := t_posCount d1 + 1\<rparr>)))"

text \<open>
  The sample loop of \<^verbatim>\<open>GetIso15693AnswerFromTag\<close>, without its timeout: one call per
  sample until the decoder returns true.
\<close>

fun feed_tag :: "16 word list \<Rightarrow> bool \<Rightarrow> DecodeTag \<Rightarrow> bool \<times> DecodeTag" where
  "feed_tag [] recv_speed d = (False, d)"
| "feed_tag (a # as) recv_speed d =
     (case Handle15693SamplesFromTag a recv_speed d of
        (True, d') \<Rightarrow> (True, d')
      | (False, d') \<Rightarrow> feed_tag as recv_speed d')"

section \<open>The iCLASS tag simulation (iclass.c)\<close>

datatype chip_state_t = IDLE | ACTIVATED | SELECTED | HALTED

text \<open>The simulation modes \<^verbatim>\<open>ICLASS_SIM_MODE_*\<close>, an enumeration of distinct values.\<close>

datatype sim_mode =
    ICLASS_SIM_MODE_CSN
  | ICLASS_SIM_MODE_CSN_DEFAULT
  | ICLASS_SIM_MODE_READER_ATTACK
  | ICLASS_SIM_MODE_FULL
  | ICLASS_SIM_MODE_EXIT_AFTER_MAC

text \<open>
  The pointers \<^verbatim>\<open>cipher_state\<close> and \<^verbatim>\<open>diversified_key\<close> aim into the debit-key or
  the credit-key storage; \<open>key_sel\<close> names which.
\<close>

datatype key_sel = Kd | Kc

text \<open>
  Command codes that the comments of \<^verbatim>\<open>doIClassSimulation\<close> spell out
  (\<^verbatim>\<open>Reader 0a\<close>, \<^verbatim>\<open>Reader 0c\<close>, \<^verbatim>\<open>Reader 81 anticoll. CSN\<close>,
  \<^verbatim>\<open>Read e-purse (88 02 || 18 02)\<close>, \<^verbatim>\<open>// 0x06\<close>).
\<close>

definition ICLASS_CMD_ACTALL :: byte where "ICLASS_CMD_ACTALL = 0x0A"
definition ICLASS_CMD_READ_OR_IDENTIFY :: byte where "ICLASS_CMD_READ_OR_IDENTIFY = 0x0C"
definition ICLASS_CMD_SELECT :: byte where "ICLASS_CMD_SELECT = 0x81"
definition ICLASS_CMD_READCHECK_KD :: byte where "ICLASS_CMD_READCHECK_KD = 0x88"
definition ICLASS_CMD_READCHECK_KC :: byte where "ICLASS_CMD_READCHECK_KC = 0x18"
definition ICLASS_CMD_READ4 :: byte where "ICLASS_CMD_READ4 = 0x06"

text \<open>
  What the simulation uses and the sources do not hold, taken as parameters: the CRC
  \<^verbatim>\<open>ComputeCrc14443(CRC_ICLASS, ...)\<close> (its two result bytes), the cipher
  \<^verbatim>\<open>opt_doTagMAC_1\<close> (e-purse and key to cipher state) and \<^verbatim>\<open>opt_doTagMAC_2\<close>
  (cipher state, the bytes at the pointer \<^verbatim>\<open>receivedCmd + 1\<close> where the reader nonce
  stands, and key to the four MAC bytes it writes, of which the caller sends
  \<^verbatim>\<open>trace_data_size = 4\<close>), and the remaining command codes of \<^verbatim>\<open>protocols.h\<close>.
\<close>

record 's externals =
  ComputeCrc_ICLASS :: "byte list \<Rightarrow> byte \<times> byte"
  opt_doTagMAC_1 :: "byte list \<Rightarrow> byte list \<Rightarrow> 's"
  opt_doTagMAC_2 :: "'s \<Rightarrow> byte list \<Rightarrow> byte list \<Rightarrow> byte \<times> byte \<times> byte \<times> byte"
  ICLASS_CMD_CHECK_KC :: byte
  ICLASS_CMD_CHECK_KD :: byte
  ICLASS_CMD_HALT :: byte
  ICLASS_CMD_UPDATE :: byte
  ICLASS_CMD_PAGESEL :: byte

text \<open>\<^verbatim>\<open>AppendCrc(data, len)\<close> writes the CRC of the first \<open>len\<close> bytes behind them.\<close>

definition AppendCrc :: "'s externals \<Rightarrow> byte list \<Rightarrow> nat \<Rightarrow> byte list" where
  "AppendCrc E data len =
     (let c = ComputeCrc_ICLASS E (take len data)
      in take len data @ [fst c, snd c] @ drop (len + 2) data)"

text \<open>\<^verbatim>\<open>memcpy\<close> out of and into a byte-addressed memory.\<close>

definition mem_read :: "(nat \<Rightarrow> byte) \<Rightarrow> nat \<Rightarrow> nat \<Rightarrow> byte list" where
  "mem_read mem off n = map mem [off..<off + n]"

definition mem_write :: "(nat \<Rightarrow> byte) \<Rightarrow> nat \<Rightarrow> byte list \<Rightarrow> (nat \<Rightarrow> byte)" where
  "mem_write mem off xs =
     (\<lambda>a. if off \<le> a \<and> a < off + length xs then xs ! (a - off) else mem a)"

text \<open>
  The variables of \<^verbatim>\<open>doIClassSimulation\<close> that live across loop iterations. The two
  arrays \<^verbatim>\<open>State cipher_state_KC[8], cipher_state_KD[8]\<close> are addressed by index;
  \<open>cipher_state\<close> and \<open>diversified_key\<close> are the two pointers. \<open>emulator\<close> is the emulator
  memory. \<open>reader_mac_buf\<close> is the caller's 16-byte buffer, \<open>None\<close> for \<^verbatim>\<open>NULL\<close>.
  \<open>anticoll_data\<close>, \<open>csn_data\<close>, \<open>conf_block\<close>, \<open>page_size\<close> and \<open>max_page\<close> are
  set before the loop and never written again; the encoded responses
  \<^verbatim>\<open>resp_anticoll\<close>, \<^verbatim>\<open>resp_csn\<close>, \<^verbatim>\<open>resp_conf\<close> are their encodings.
  \<open>mac1_calls\<close> and \<open>out_of_bounds\<close> are not variables of the code. \<open>mac1_calls\<close> lists,
  latest first, the array element (key and index) that each call of \<^verbatim>\<open>opt_doTagMAC_1\<close>
  was assigned to. \<open>out_of_bounds\<close> is set when such an assignment aims outside the eight
  elements of its array, which is undefined in C: the model then leaves the arrays as they
  are and says nothing more of the stored cipher states. The values of \<open>cipher_state_KC\<close>
  and \<open>cipher_state_KD\<close> at an index of 8 or more are never written; they stand for the
  indeterminate memory that a pointer beyond the arrays reads.
\<close>

record 's sim =
  chip_state :: chip_state_t
  current_page :: byte
  cipher_state_KC :: "nat \<Rightarrow> 's"
  cipher_state_KD :: "nat \<Rightarrow> 's"
  cipher_state :: "key_sel \<times> nat"
  diversified_key_d :: "byte list"
  diversified_key_c :: "byte list"
  diversified_key :: key_sel
  card_challenge_data :: "byte list"
  resp_cc :: "byte list"
  personalization_mode :: bool
  emulator :: "nat \<Rightarrow> byte"
  reader_mac_buf :: "byte list option"
  exitLoop :: bool
  page_size :: nat
  max_page :: byte
  anticoll_data :: "byte list"
  csn_data :: "byte list"
  conf_block :: "byte list"
  mac1_calls :: "(key_sel \<times> nat) list"
  out_of_bounds :: bool

text \<open>What one loop iteration transmits: the modulated response and the logged bytes.\<close>

record reply =
  modulated_response :: "byte list"
  trace_data :: "byte list"

definition send :: "byte list \<Rightarrow> byte list \<Rightarrow> reply option" where
  "send m t = Some \<lparr>modulated_response = m, trace_data = t\<rparr>"

text \<open>A response encoded on the spot: \<^verbatim>\<open>CodeIso15693AsTag(trace_data, trace_data_size)\<close>.\<close>

definition send_coded :: "byte list \<Rightarrow> reply option" where
  "send_coded t = send (CodeIso15693AsTag t) t"

definition ff_data :: "'s externals \<Rightarrow> byte list" where
  "ff_data E = AppendCrc E [0xFF, 0xFF, 0xFF, 0xFF, 0xFF, 0xFF, 0xFF, 0xFF, 0x00, 0x00] 8"

definition aia_data :: "'s externals \<Rightarrow> byte list" where
  "aia_data E = AppendCrc E [0xFF, 0xFF, 0xFF, 0xFF, 0xFF, 0xFF, 0xFF, 0xFF, 0x00, 0x00] 8"

text \<open>Reading through the two pointers.\<close>

definition deref_cipher_state :: "'s sim \<Rightarrow> 's" where
  "deref_cipher_state s =
     (case cipher_state s of
        (Kd, i) \<Rightarrow> cipher_state_KD s i
      | (Kc, i) \<Rightarrow> cipher_state_KC s i)"

definition deref_diversified_key :: "'s sim \<Rightarrow> byte list" where
  "deref_diversified_key s =
     (case diversified_key s of Kd \<Rightarrow> diversified_key_d s | Kc \<Rightarrow> diversified_key_c s)"

text \<open>
  \<^verbatim>\<open>cipher_state_KD[current_page] = opt_doTagMAC_1(card_challenge_data, diversified_key_d)\<close>
  and its credit-key twin.
\<close>

definition derive_KD :: "'s externals \<Rightarrow> 's sim \<Rightarrow> 's sim" where
  "derive_KD E s =
     (if unat (current_page s) < 8
      then s\<lparr>cipher_state_KD := (cipher_state_KD s)
             (unat (current_page s) :=
                opt_doTagMAC_1 E (card_challenge_data s) (diversified_key_d s)),
           mac1_calls := (Kd, unat (current_page s)) # mac1_calls s\<rparr>
      else s\<lparr>mac1_calls := (Kd, unat (current_page s)) # mac1_calls s,
             out_of_bounds := True\<rparr>)"

definition derive_KC :: "'s externals \<Rightarrow> 's sim \<Rightarrow> 's sim" where
  "derive_KC E s =
     (if unat (current_page s) < 8
      then s\<lparr>cipher_state_KC := (cipher_state_KC s)
             (unat (current_page s) :=
                opt_doTagMAC_1 E (card_challenge_data s) (diversified_key_c s)),
           mac1_calls := (Kc, unat (current_page s)) # mac1_calls s\<rparr>
      else s\<lparr>mac1_calls := (Kc, unat (current_page s)) # mac1_calls s,
             out_of_bounds := True\<rparr>)"

text \<open>The byte offset \<^verbatim>\<open>current_page*page_size + 8*blockNo\<close> into the emulator memory.\<close>

definition block_offset :: "'s sim \<Rightarrow> nat \<Rightarrow> nat" where
  "block_offset s blockNo = unat (current_page s) * page_size s + 8 * blockNo"

text \<open>
  The key update loop of \<^verbatim>\<open>ICLASS_CMD_UPDATE\<close>: the eight new bytes replace the key in
  personalization mode and are XORed into it otherwise.
\<close>

definition update_key :: "bool \<Rightarrow> byte list \<Rightarrow> byte list \<Rightarrow> byte list" where
  "update_key pers key new =
     map (\<lambda>i. if pers then new ! i else (key ! i) XOR (new ! i)) [0..<8]"

text \<open>
  The precomputation loop \<^verbatim>\<open>for (int i = 1; i < max_page; i++)\<close> of full simulation:
  the cipher states of page \<open>i\<close> from the e-purse and keys stored in the emulator memory.
  \<open>max_page\<close> is 0 or 7, so the loop stays inside the arrays.
\<close>

definition precalc_page :: "'s externals \<Rightarrow> nat \<Rightarrow> 's sim \<Rightarrow> 's sim" where
  "precalc_page E i s =
     (let epurse = mem_read (emulator s) (i * page_size s + 8 * 2) 8;
          Kd_i = mem_read (emulator s) (i * page_size s + 8 * 3) 8;
          Kc_i = mem_read (emulator s) (i * page_size s + 8 * 4) 8
      in s\<lparr>cipher_state_KD := (cipher_state_KD s)(i := opt_doTagMAC_1 E epurse Kd_i),
           cipher_state_KC := (cipher_state_KC s)(i := opt_doTagMAC_1 E epurse Kc_i),
           mac1_calls := (Kc, i) # (Kd, i) # mac1_calls s\<rparr>)"

text \<open>
  \<^verbatim>\<open>doIClassSimulation\<close> up to its loop. \<open>emu\<close> is the emulator memory, \<open>rmb\<close> the
  argument \<^verbatim>\<open>reader_mac_buf\<close>, \<open>kd0\<close> and \<open>kc0\<close> the indeterminate first contents
  of the two local arrays of cipher states. \<open>doIClassSimulation_setup\<close> is the state
  before the precomputation loop, \<open>doIClassSimulation_init\<close> the state before the receive loop.
\<close>

definition doIClassSimulation_setup ::
  "'s externals \<Rightarrow> sim_mode \<Rightarrow> (nat \<Rightarrow> byte) \<Rightarrow> byte list option \<Rightarrow>
   (nat \<Rightarrow> 's) \<Rightarrow> (nat \<Rightarrow> 's) \<Rightarrow> 's sim" where
  "doIClassSimulation_setup E simulationMode emu rmb kd0 kc0 =
     (let csn_raw = mem_read emu 0 10;
          anticoll = AppendCrc E (rotateCSN csn_raw @ [0, 0]) 8;
          csn = AppendCrc E csn_raw 8;
          full = (simulationMode = ICLASS_SIM_MODE_FULL);
          key_d = (if full then mem_read emu (8 * 3) 8 else replicate 8 0);
          key_c = (if full then mem_read emu (8 * 4) 8 else replicate 8 0);
          conf0 = (if full then mem_read emu (8 * 1) 8 @ [0x00, 0x00]
                   else [0x12, 0xFF, 0xFF, 0xFF, 0x7F, 0x1F, 0xFF, 0x3C, 0x00, 0x00]);
          cc = (if full then mem_read emu (8 * 2) 8
                else [0xfe, 0xff, 0xff, 0xff, 0xff, 0xff, 0xff, 0xff]);
          conf = AppendCrc E conf0 8
      in \<lparr>chip_state = IDLE,
          current_page = 0,
          cipher_state_KC = kc0(0 := opt_doTagMAC_1 E cc key_c),
          cipher_state_KD = kd0(0 := opt_doTagMAC_1 E cc key_d),
          cipher_state = (Kd, 0),
          diversified_key_d = key_d,
          diversified_key_c = key_c,
          diversified_key = Kd,
          card_challenge_data = cc,
          resp_cc = CodeIso15693AsTag cc,
          personalization_mode = (conf ! 7 AND 0x80 \<noteq> 0),
          emulator = emu,
          reader_mac_buf = map_option (\<lambda>buf. cc @ drop 8 buf) rmb,
          exitLoop = False,
          page_size = (if conf ! 5 AND 0x80 \<noteq> 0 then 256 * 8 else 32 * 8),
          max_page = (if conf ! 4 AND 0x10 \<noteq> 0 then 0 else 7),
          anticoll_data = anticoll,
          csn_data = csn,
          conf_block = conf,
          mac1_calls = [(Kc, 0), (Kd, 0)],
          out_of_bounds = False\<rparr>)"

definition doIClassSimulation_init ::
  "'s externals \<Rightarrow> sim_mode \<Rightarrow> (nat \<Rightarrow> byte) \<Rightarrow> byte list option \<Rightarrow>
   (nat \<Rightarrow> 's) \<Rightarrow> (nat \<Rightarrow> 's) \<Rightarrow> 's sim" where
  "doIClassSimulation_init E simulationMode emu rmb kd0 kc0 =
     (let s0 = doIClassSimulation_setup E simulationMode emu rmb kd0 kc0
      in if simulationMode = ICLASS_SIM_MODE_FULL
         then fold (precalc_page E) [1..<unat (max_page s0)] s0 else s0)"

text \<open>
  One iteration of the loop of \<^verbatim>\<open>doIClassSimulation\<close> on the received frame
  \<open>receivedCmd\<close> of \<open>len = length receivedCmd\<close> bytes: the new state and the response, if
  one is sent. Each branch of the \<^verbatim>\<open>if ... else if\<close> chain is a function of its own,
  named after the command it serves; \<open>doIClassSimulation_step\<close> is the chain, with the
  conditions in the order of the source.
\<close>

definition resp_sof :: "reply option" where
  "resp_sof = send CodeIClassTagSOF []"

definition on_actall :: "'s sim \<Rightarrow> 's sim \<times> reply option" where
  "on_actall s =
     (if chip_state s \<noteq> HALTED then (s\<lparr>chip_state := ACTIVATED\<rparr>, resp_sof)
      else (s, None))"

definition on_identify :: "'s sim \<Rightarrow> 's sim \<times> reply option" where
  "on_identify s =
     (if chip_state s = SELECTED \<or> chip_state s = ACTIVATED
      then (s, send_coded (anticoll_data s)) else (s, None))"

definition on_select :: "'s sim \<Rightarrow> byte list \<Rightarrow> 's sim \<times> reply option" where
  "on_select s receivedCmd =
     (if chip_state s = ACTIVATED \<or> chip_state s = SELECTED then
        (if take 8 (drop 1 receivedCmd) = take 8 (anticoll_data s)
         then (s\<lparr>chip_state := SELECTED\<rparr>, send_coded (csn_data s))
         else (s\<lparr>chip_state := IDLE\<rparr>, None))
      else if chip_state s = HALTED then
        (if take 8 (drop 1 receivedCmd) = take 8 (csn_data s)
         then (s\<lparr>chip_state := SELECTED\<rparr>, send_coded (csn_data s))
         else (s, None))
      else (s, None))"

definition on_read ::
  "'s externals \<Rightarrow> sim_mode \<Rightarrow> 's sim \<Rightarrow> byte list \<Rightarrow> 's sim \<times> reply option" where
  "on_read E simulationMode s receivedCmd =
     (let blockNo = unat (receivedCmd ! 1) in
      if chip_state s = SELECTED then
        (if simulationMode = ICLASS_SIM_MODE_EXIT_AFTER_MAC then
           (if blockNo = 0 then (s, send_coded (csn_data s))
            else if blockNo = 1 then (s, send_coded (conf_block s))
            else if blockNo = 2 then
              (s\<lparr>reader_mac_buf :=
                    map_option (\<lambda>buf. card_challenge_data s @ drop 8 buf) (reader_mac_buf s)\<rparr>,
               send (resp_cc s) (card_challenge_data s))
            else if blockNo = 3 \<or> blockNo = 4 then (s, send_coded (ff_data E))
            else if blockNo = 5 then (s, send_coded (aia_data E))
            else (s, None))
         else if simulationMode = ICLASS_SIM_MODE_FULL then
           (if blockNo = 3 \<or> blockNo = 4 then (s, send_coded (ff_data E))
            else (s, send_coded
                   (AppendCrc E (mem_read (emulator s) (block_offset s blockNo) 8 @ [0, 0]) 8)))
         else (s, None))
      else (s, None))"

definition on_readcheck :: "'s sim \<Rightarrow> byte list \<Rightarrow> 's sim \<times> reply option" where
  "on_readcheck s receivedCmd =
     (if chip_state s = SELECTED then
        ((if receivedCmd ! 0 = ICLASS_CMD_READCHECK_KD
          then s\<lparr>cipher_state := (Kd, unat (current_page s)), diversified_key := Kd\<rparr>
          else s\<lparr>cipher_state := (Kc, unat (current_page s)), diversified_key := Kc\<rparr>),
         send (resp_cc s) (card_challenge_data s))
      else (s, None))"

text \<open>The four bytes of \<^verbatim>\<open>data_generic_trace\<close> that the Check branch sends.\<close>

definition mac_bytes :: "byte \<times> byte \<times> byte \<times> byte \<Rightarrow> byte list" where
  "mac_bytes m = (case m of (m0, m1, m2, m3) \<Rightarrow> [m0, m1, m2, m3])"

definition on_check ::
  "'s externals \<Rightarrow> sim_mode \<Rightarrow> 's sim \<Rightarrow> byte list \<Rightarrow> 's sim \<times> reply option" where
  "on_check E simulationMode s receivedCmd =
     (if chip_state s = SELECTED then
        (if simulationMode = ICLASS_SIM_MODE_FULL then
           (s, send_coded
                 (mac_bytes (opt_doTagMAC_2 E (deref_cipher_state s) (drop 1 receivedCmd)
                    (deref_diversified_key s))))
         else if simulationMode = ICLASS_SIM_MODE_EXIT_AFTER_MAC then
           (s\<lparr>reader_mac_buf :=
                 map_option (\<lambda>buf. take 8 buf @ take 8 (drop 1 receivedCmd) @ drop 16 buf)
                   (reader_mac_buf s),
               exitLoop := True\<rparr>, None)
         else (s, None))
      else (s, None))"

definition on_halt :: "'s sim \<Rightarrow> 's sim \<times> reply option" where
  "on_halt s =
     (if chip_state s = SELECTED then (s\<lparr>chip_state := HALTED\<rparr>, resp_sof)
      else (s, None))"

definition on_read4 :: "'s externals \<Rightarrow> 's sim \<Rightarrow> byte list \<Rightarrow> 's sim \<times> reply option" where
  "on_read4 E s receivedCmd =
     (if chip_state s = SELECTED
      then (let blockNo = unat (receivedCmd ! 1)
            in (s, send_coded
                     (AppendCrc E
                        (mem_read (emulator s) (block_offset s blockNo) (8 * 4) @ [0, 0])
                        (8 * 4))))
      else (s, None))"

text \<open>The state after an update of block 2, of block 3, of block 4 and of any other block.\<close>

definition update_epurse :: "'s externals \<Rightarrow> bool \<Rightarrow> 's sim \<Rightarrow> byte list \<Rightarrow> 's sim" where
  "update_epurse E full s new =
     (let s2 = derive_KC E (derive_KD E
                 (s\<lparr>card_challenge_data := new, resp_cc := CodeIso15693AsTag new\<rparr>))
      in if full
         then s2\<lparr>emulator := mem_write (emulator s2) (block_offset s2 2) (card_challenge_data s2)\<rparr>
         else s2)"

definition update_Kd :: "'s externals \<Rightarrow> bool \<Rightarrow> 's sim \<Rightarrow> byte list \<Rightarrow> 's sim" where
  "update_Kd E full s new =
     (let s2 = derive_KD E
                 (s\<lparr>diversified_key_d :=
                      update_key (personalization_mode s) (diversified_key_d s) new\<rparr>)
      in if full
         then s2\<lparr>emulator := mem_write (emulator s2) (block_offset s2 3) (diversified_key_d s2)\<rparr>
         else s2)"

definition update_Kc :: "'s externals \<Rightarrow> bool \<Rightarrow> 's sim \<Rightarrow> byte list \<Rightarrow> 's sim" where
  "update_Kc E full s new =
     (let s2 = derive_KC E
                 (s\<lparr>diversified_key_c :=
                      update_key (personalization_mode s) (diversified_key_c s) new\<rparr>)
      in if full
         then s2\<lparr>emulator := mem_write (emulator s2) (block_offset s2 4) (diversified_key_c s2)\<rparr>
         else s2)"

definition on_update ::
  "'s externals \<Rightarrow> sim_mode \<Rightarrow> 's sim \<Rightarrow> byte list \<Rightarrow> 's sim \<times> reply option" where
  "on_update E simulationMode s receivedCmd =
     (if chip_state s = SELECTED then
        (let blockNo = unat (receivedCmd ! 1);
             new = take 8 (drop 2 receivedCmd);
             full = (simulationMode = ICLASS_SIM_MODE_FULL);
             s1 = (if blockNo = 2 then update_epurse E full s new
                   else if blockNo = 3 then update_Kd E full s new
                   else if blockNo = 4 then update_Kc E full s new
                   else if full
                   then s\<lparr>emulator := mem_write (emulator s) (block_offset s blockNo) new\<rparr>
                   else s)
         in (s1, send_coded (AppendCrc E (new @ [0, 0]) 8)))
      else (s, None))"

definition on_pagesel ::
  "'s externals \<Rightarrow> sim_mode \<Rightarrow> 's sim \<Rightarrow> byte list \<Rightarrow> 's sim \<times> reply option" where
  "on_pagesel E simulationMode s receivedCmd =
     (if chip_state s = SELECTED then
        (if simulationMode = ICLASS_SIM_MODE_FULL \<and> max_page s > 0 then
           (let s1 = s\<lparr>current_page := receivedCmd ! 1\<rparr>;
                conf = mem_read (emulator s1) (block_offset s1 1) 8;
                s2 = s1\<lparr>diversified_key_d := mem_read (emulator s1) (block_offset s1 3) 8,
                        diversified_key_c := mem_read (emulator s1) (block_offset s1 4) 8,
                        cipher_state := (Kd, unat (current_page s1)),
                        personalization_mode := (conf ! 7 AND 0x80 \<noteq> 0)\<rparr>
            in (s2, send_coded (AppendCrc E (conf @ [0, 0]) 8)))
         else (s, None))
      else (s, None))"

definition doIClassSimulation_step ::
  "'s externals \<Rightarrow> sim_mode \<Rightarrow> 's sim \<Rightarrow> byte list \<Rightarrow> 's sim \<times> reply option" where
  "doIClassSimulation_step E simulationMode s receivedCmd =
     (let len = length receivedCmd;
          cmd0 = receivedCmd ! 0
      in
      if cmd0 = ICLASS_CMD_ACTALL \<and> len = 1 then on_actall s
      else if cmd0 = ICLASS_CMD_READ_OR_IDENTIFY \<and> len = 1 then on_identify s
      else if cmd0 = ICLASS_CMD_SELECT \<and> len = 9 then on_select s receivedCmd
      else if cmd0 = ICLASS_CMD_READ_OR_IDENTIFY \<and> len = 4
        then on_read E simulationMode s receivedCmd
      else if (cmd0 = ICLASS_CMD_READCHECK_KD \<or> cmd0 = ICLASS_CMD_READCHECK_KC)
              \<and> receivedCmd ! 1 = 0x02 \<and> len = 2
        then on_readcheck s receivedCmd
      else if (cmd0 = ICLASS_CMD_CHECK_KC E \<or> cmd0 = ICLASS_CMD_CHECK_KD E) \<and> len = 9
        then on_check E simulationMode s receivedCmd
      else if cmd0 = ICLASS_CMD_HALT E \<and> len = 1 then on_halt s
      else if simulationMode = ICLASS_SIM_MODE_FULL \<and> cmd0 = ICLASS_CMD_READ4 \<and> len = 4
        then on_read4 E s receivedCmd
      else if cmd0 = ICLASS_CMD_UPDATE E \<and> (len = 12 \<or> len = 14)
        then on_update E simulationMode s receivedCmd
      else if cmd0 = ICLASS_CMD_PAGESEL E \<and> len = 4
        then on_pagesel E simulationMode s receivedCmd
      else (s, None))"

text \<open>
  The loop \<^verbatim>\<open>while (!exitLoop)\<close> over the frames that
  \<^verbatim>\<open>GetIso15693CommandFromReader\<close> delivers, with the responses in order
  (\<open>None\<close> where nothing is transmitted).
\<close>

fun doIClassSimulation_loop ::
  "'s externals \<Rightarrow> sim_mode \<Rightarrow> 's sim \<Rightarrow> byte list list \<Rightarrow> 's sim \<times> reply option list" where
  "doIClassSimulation_loop E simulationMode s [] = (s, [])"
| "doIClassSimulation_loop E simulationMode s (f # fs) =
     (if exitLoop s then (s, [])
      else
        (let (s1, r) = doIClassSimulation_step E simulationMode s f;
             (s2, rs) = doIClassSimulation_loop E simulationMode s1 fs
         in (s2, r # rs)))"

text \<open>
  \<^verbatim>\<open>SimulateIClass\<close> for the simulation types that run one session: the CSN of the
  command line, the default CSN, and full simulation. The reader attack, which runs one
  session per CSN, and the reserved types give \<open>None\<close> here.
\<close>

definition default_csn :: "byte list" where
  "default_csn = [0x03, 0x1f, 0xec, 0x8a, 0xf7, 0xff, 0x12, 0xe0]"

definition SimulateIClass ::
  "'s externals \<Rightarrow> sim_mode \<Rightarrow> byte list \<Rightarrow> (nat \<Rightarrow> byte) \<Rightarrow> (nat \<Rightarrow> 's) \<Rightarrow> (nat \<Rightarrow> 's) \<Rightarrow>
   byte list list \<Rightarrow> ('s sim \<times> reply option list) option" where
  "SimulateIClass E simType datain emu kd0 kc0 frames =
     (if simType = ICLASS_SIM_MODE_CSN then
        Some (doIClassSimulation_loop E ICLASS_SIM_MODE_CSN
                (doIClassSimulation_init E ICLASS_SIM_MODE_CSN
                   (mem_write emu 0 (take 8 datain)) None kd0 kc0) frames)
      else if simType = ICLASS_SIM_MODE_CSN_DEFAULT then
        Some (doIClassSimulation_loop E ICLASS_SIM_MODE_CSN
                (doIClassSimulation_init E ICLASS_SIM_MODE_CSN
                   (mem_write emu 0 default_csn) None kd0 kc0) frames)
      else if simType = ICLASS_SIM_MODE_FULL then
        Some (doIClassSimulation_loop E ICLASS_SIM_MODE_FULL
                (doIClassSimulation_init E ICLASS_SIM_MODE_FULL emu None kd0 kc0) frames)
      else None)"

section \<open>An instance of the parameters\<close>

text \<open>
  Modelled from the spec: \<^verbatim>\<open>ComputeCrc14443\<close> of \<^verbatim>\<open>iso14443crc.c\<close> is not among the
  sources. The spec documents the trailers \<open>{0xfa, 0x22}\<close> and \<open>{0x61, 0x10}\<close> of the
  read requests for block 1 and block 2, the same bytes as in the frames \<^verbatim>\<open>readConf\<close>
  and \<^verbatim>\<open>readEpurse\<close> of iclass.c. The function below is the reflected CRC-16 with
  polynomial \<open>0x8408\<close>, started at \<open>0xE012\<close>, low byte first; it gives these trailers for
  the block number byte. It is used for concrete runs only; every general statement below
  is about an arbitrary CRC function.
\<close>

definition UpdateCrc14443 :: "byte \<Rightarrow> 16 word \<Rightarrow> 16 word" where
  "UpdateCrc14443 ch0 wCrc =
     (let ch1 = ch0 XOR ucast (wCrc AND 0x00FF);
          ch = ch1 XOR push_bit 4 ch1
      in drop_bit 8 wCrc XOR push_bit 8 (ucast ch) XOR push_bit 3 (ucast ch)
           XOR drop_bit 4 (ucast ch))"

definition ComputeCrc14443_ICLASS :: "byte list \<Rightarrow> byte \<times> byte" where
  "ComputeCrc14443_ICLASS xs =
     (let wCrc = fold UpdateCrc14443 xs 0xE012
      in (ucast (wCrc AND 0xFF), ucast (drop_bit 8 wCrc AND 0xFF)))"

text \<open>
  A stand-in for the cipher, for concrete runs only: the cipher state keeps the e-purse and
  the key it was derived from, and the MAC is the bytewise XOR of the first four bytes of
  e-purse, key and nonce. The remaining command codes are those of the PicoPass command set.
\<close>

definition demo_externals :: "(byte list \<times> byte list) externals" where
  "demo_externals =
     \<lparr>ComputeCrc_ICLASS = ComputeCrc14443_ICLASS,
      opt_doTagMAC_1 = (\<lambda>cc key. (cc, key)),
      opt_doTagMAC_2 = (\<lambda>st nr key.
         ((fst st ! 0) XOR (snd st ! 0) XOR (nr ! 0), (fst st ! 1) XOR (snd st ! 1) XOR (nr ! 1),
          (fst st ! 2) XOR (snd st ! 2) XOR (nr ! 2), (fst st ! 3) XOR (snd st ! 3) XOR (nr ! 3))),
      ICLASS_CMD_CHECK_KC = 0x95,
      ICLASS_CMD_CHECK_KD = 0x05,
      ICLASS_CMD_HALT = 0x00,
      ICLASS_CMD_UPDATE = 0x87,
      ICLASS_CMD_PAGESEL = 0x84\<rparr>"

text \<open>
  A concrete session for the runs below: an emulator memory that is zero but for the default
  CSN in block 0, no \<^verbatim>\<open>reader_mac_buf\<close>, and empty pairs as first contents of the
  cipher state arrays.
\<close>

definition demo_emu :: "nat \<Rightarrow> byte" where
  "demo_emu = mem_write (\<lambda>_. 0) 0 default_csn"

definition demo_init :: "sim_mode \<Rightarrow> (byte list \<times> byte list) sim" where
  "demo_init m =
     doIClassSimulation_init demo_externals m demo_emu None (\<lambda>_. ([], [])) (\<lambda>_. ([], []))"

section \<open>Notions of the specification\<close>

text \<open>The two CRC bytes in transmission order.\<close>

definition crc_bytes :: "'s externals \<Rightarrow> byte list \<Rightarrow> byte list" where
  "crc_bytes E xs = [fst (ComputeCrc_ICLASS E xs), snd (ComputeCrc_ICLASS E xs)]"

text \<open>
  A session emulates the card with serial number \<open>csn\<close>: the two constant buffers hold the
  CSN and its anticollision form, each followed by its CRC.
\<close>

definition emulates :: "'s externals \<Rightarrow> byte list \<Rightarrow> 's sim \<Rightarrow> bool" where
  "emulates E csn s =
     (length csn = 8 \<and> csn_data s = csn @ crc_bytes E csn \<and>
      anticoll_data s = rotateCSN csn @ crc_bytes E (rotateCSN csn))"

text \<open>
  The command table of the specification: the frame's first byte and length match one of
  the fixed (command, length) contracts.
\<close>

definition in_command_table :: "'s externals \<Rightarrow> sim_mode \<Rightarrow> byte list \<Rightarrow> bool" where
  "in_command_table E simulationMode f =
     (let c = f ! 0; n = length f in
        c = ICLASS_CMD_ACTALL \<and> n = 1 \<or>
        c = ICLASS_CMD_READ_OR_IDENTIFY \<and> (n = 1 \<or> n = 4) \<or>
        c = ICLASS_CMD_SELECT \<and> n = 9 \<or>
        (c = ICLASS_CMD_READCHECK_KD \<or> c = ICLASS_CMD_READCHECK_KC) \<and> f ! 1 = 0x02 \<and> n = 2 \<or>
        (c = ICLASS_CMD_CHECK_KC E \<or> c = ICLASS_CMD_CHECK_KD E) \<and> n = 9 \<or>
        c = ICLASS_CMD_HALT E \<and> n = 1 \<or>
        simulationMode = ICLASS_SIM_MODE_FULL \<and> c = ICLASS_CMD_READ4 \<and> n = 4 \<or>
        c = ICLASS_CMD_UPDATE E \<and> (n = 12 \<or> n = 14) \<or>
        c = ICLASS_CMD_PAGESEL E \<and> n = 4)"


text \<open>
  The end-to-end scenario of the specification: \<open>0a\<close>, \<open>0c\<close>, \<open>81\<close> with the rotated CSN,
  and the request to read block 1 (the frame \<^verbatim>\<open>readConf\<close> of iclass.c). \<open>default_conf\<close> is
  the configuration block that \<^verbatim>\<open>doIClassSimulation\<close> starts with.
\<close>

definition scenario_frames :: "byte list list" where
  "scenario_frames = [[0x0a], [0x0c], 0x81 # rotateCSN default_csn, [0x0c, 0x01, 0xfa, 0x22]]"

definition default_conf :: "byte list" where
  "default_conf = [0x12, 0xFF, 0xFF, 0xFF, 0x7F, 0x1F, 0xFF, 0x3C]"

subsection \<open>Frames on the air, symbol by symbol\<close>

text \<open>The samples of a bit string: four samples per transmitted bit, a pause read as 0.\<close>

definition smp :: "bool list \<Rightarrow> byte list" where
  "smp bits = concat (map (\<lambda>m. replicate 4 (if m then 0 else 1)) bits)"

text \<open>The four pattern bytes that \<^verbatim>\<open>CodeIso15693AsReader\<close> sends for one data byte.\<close>

definition sym4 :: "byte \<Rightarrow> byte list" where
  "sym4 c = [one_of_4_pattern (c AND 3), one_of_4_pattern (drop_bit 2 c AND 3),
             one_of_4_pattern (drop_bit 4 c AND 3), one_of_4_pattern (drop_bit 6 c AND 3)]"

text \<open>
  The first \<open>k\<close> slots that \<^verbatim>\<open>CodeIso15693AsReader256\<close> sends for one data byte: two
  bits per slot, the second one set in the slot whose number is the byte.
\<close>

definition slots256 :: "byte \<Rightarrow> nat \<Rightarrow> bool list" where
  "slots256 c k = concat (map (\<lambda>j. [False, unat c = j]) [0..<k])"

text \<open>
  The decoder stands between two data bytes: it is in the receive state \<open>st\<close> at a slot
  boundary, has stored the \<open>n\<close> bytes \<open>out\<close> and has room for \<open>M\<close>.
\<close>

definition receiving ::
  "reader_state \<Rightarrow> nat \<Rightarrow> DecodeReader \<Rightarrow> nat \<Rightarrow> byte list \<Rightarrow> bool" where
  "receiving st M d n out =
     (r_state d = st \<and> r_posCount d = 0 \<and> r_bitCount d = 0 \<and> r_byteCount d = int n \<and>
      r_byteCountMax d = int M \<and> map (r_output d) [0..<n] = out)"

text \<open>
  The decoder stands inside a byte of the 1 out of 256 coding, before slot \<open>k\<close>: once the
  slot of the byte \<open>c\<close> has passed, the shift register holds \<open>c\<close>.
\<close>

definition in_byte256 ::
  "nat \<Rightarrow> DecodeReader \<Rightarrow> nat \<Rightarrow> byte list \<Rightarrow> byte \<Rightarrow> nat \<Rightarrow> bool" where
  "in_byte256 M d n out c k =
     (r_state d = STATE_READER_RECEIVE_DATA_1_OUT_OF_256 \<and> r_posCount d = 0 \<and>
      r_bitCount d = of_nat k \<and> r_byteCount d = int n \<and> r_byteCountMax d = int M \<and>
      map (r_output d) [0..<n] = out \<and> (unat c < k \<longrightarrow> r_shiftReg d = c))"

text \<open>
  The send buffer holds the bits \<open>bs\<close>, the unused bits of its last byte being zero.
\<close>

definition stuffed :: "tosend \<Rightarrow> bool list \<Rightarrow> bool" where
  "stuffed t bs =
     (ToSend t \<noteq> [] \<and> 1 \<le> ToSendBit t \<and> ToSendBit t \<le> 8 \<and>
      tosend_bits (ToSend t) = bs @ replicate (8 - ToSendBit t) False)"

text \<open>
  The source's \<^verbatim>\<open>bit = !!bit\<close>, and an End-Of-Frame slot: eight samples with at most
  one unmodulated sample in the first half and at least three in the second, which is the
  test \<^verbatim>\<open>sum1 <= 1 && sum2 >= 3\<close> of both receive states.
\<close>

definition nz :: "byte \<Rightarrow> int" where
  "nz e = (if e \<noteq> 0 then 1 else 0)"

definition eof_slot :: "byte list \<Rightarrow> bool" where
  "eof_slot es =
     (length es = 8 \<and> sum_list (map nz (take 4 es)) \<le> 1 \<and> 3 \<le> sum_list (map nz (drop 4 es)))"

text \<open>
  An amplitude stream for the tag decoder at the high data rate, eight samples per bit and
  a modulated sample of amplitude 1000: silence, the start of frame (the unmodulated part
  and a logic 1), then the data bits, least significant bit first. A logic 1 is modulated
  in its second half, a logic 0 in its first half.
\<close>

definition tag_sof_samples :: "16 word list" where
  "tag_sof_samples = replicate 11 0 @ replicate 13 1000 @ [0, 0, 0, 0, 1000, 1000, 1000, 1000]"

definition tag_bit_samples :: "bool \<Rightarrow> 16 word list" where
  "tag_bit_samples b =
     (if b then [0, 0, 0, 0, 1000, 1000, 1000, 1000] else [1000, 1000, 1000, 1000, 0, 0, 0, 0])"

definition tag_byte_samples :: "byte \<Rightarrow> 16 word list" where
  "tag_byte_samples c = concat (map (\<lambda>i. tag_bit_samples (bit c i)) [0..<8])"

section \<open>Properties\<close>

subsection \<open>Bytes and lists\<close>

lemma rot_byte_word: "rot_byte a b = drop_bit 3 a OR push_bit 5 b"
  unfolding rot_byte_def
  by (rule bit_eqI) (auto simp: bit_simps)

lemma rot_byte_inverse:
  "push_bit 3 (rot_byte x y) OR drop_bit 5 (rot_byte w x) = x"
  unfolding rot_byte_word
  by (rule bit_eqI) (auto simp: bit_simps)

lemma unrot_byte_inverse:
  "rot_byte (push_bit 3 a OR drop_bit 5 z) (push_bit 3 b OR drop_bit 5 a) = (a :: byte)"
  unfolding rot_byte_word
proof (rule bit_eqI)
  fix n
  show "bit (drop_bit 3 (push_bit 3 a OR drop_bit 5 z) OR
             push_bit 5 (push_bit 3 b OR drop_bit 5 a)) n = bit a n"
    by (cases "n < 5") (auto simp: bit_simps not_less dest: bit_imp_le_length)
qed

lemma upt8: "[0..<8] = [0, 1, 2, 3, 4, 5, 6, 7]"
  by (simp add: upt_rec)

lemma length8E:
  assumes "length (c :: 'a list) = 8"
  obtains c0 c1 c2 c3 c4 c5 c6 c7 where "c = [c0, c1, c2, c3, c4, c5, c6, c7]"
proof -
  from assms obtain c0 t0 where "c = c0 # t0" "length t0 = 7" by (cases c) auto
  moreover then obtain c1 t1 where "t0 = c1 # t1" "length t1 = 6" by (cases t0) auto
  moreover then obtain c2 t2 where "t1 = c2 # t2" "length t2 = 5" by (cases t1) auto
  moreover then obtain c3 t3 where "t2 = c3 # t3" "length t3 = 4" by (cases t2) auto
  moreover then obtain c4 t4 where "t3 = c4 # t4" "length t4 = 3" by (cases t3) auto
  moreover then obtain c5 t5 where "t4 = c5 # t5" "length t5 = 2" by (cases t4) auto
  moreover then obtain c6 t6 where "t5 = c6 # t6" "length t6 = 1" by (cases t5) auto
  moreover then obtain c7 where "t6 = [c7]" by (cases t6) auto
  ultimately show ?thesis using that by blast
qed

lemma mem_read_split: "mem_read emu off (n + k) = mem_read emu off n @ mem_read emu (off + n) k"
proof -
  have "[off..<off + (n + k)] = [off..<off + n] @ [off + n..<off + n + k]"
    using upt_add_eq_append [of off "off + n" k] by (simp add: add.assoc)
  then show ?thesis by (simp add: mem_read_def add.assoc)
qed

lemma mem_read_length: "length (mem_read emu off n) = n"
  by (simp add: mem_read_def)

lemma mem_read_10: "mem_read emu 0 10 = mem_read emu 0 8 @ mem_read emu 8 2"
  using mem_read_split [of emu 0 8 2] by simp

subsection \<open>The anticollision CSN\<close>

lemma rotateCSN_length: "length (rotateCSN c) = 8"
  by (simp add: rotateCSN_def)

lemma unrotateCSN_length: "length (unrotateCSN c) = 8"
  by (simp add: unrotateCSN_def)

lemma rotateCSN_nth:
  "i < 8 \<Longrightarrow> rotateCSN c ! i = drop_bit 3 (c ! i) OR push_bit 5 (c ! ((i + 1) mod 8))"
  by (simp add: rotateCSN_def rot_byte_word)

lemma rotateCSN_prefix: "length c = 8 \<Longrightarrow> rotateCSN (c @ r) = rotateCSN c"
  by (erule length8E) (simp add: rotateCSN_def upt8)

lemma unrotate_rotate: "length c = 8 \<Longrightarrow> unrotateCSN (rotateCSN c) = c"
  by (erule length8E) (simp add: rotateCSN_def unrotateCSN_def upt8 rot_byte_inverse)

lemma rotate_unrotate: "length r = 8 \<Longrightarrow> rotateCSN (unrotateCSN r) = r"
  by (erule length8E) (simp add: rotateCSN_def unrotateCSN_def upt8 unrot_byte_inverse)

lemma rotateCSN_bij: "bij_betw rotateCSN {c. length c = 8} {c. length c = 8}"
  by (rule bij_betw_byWitness [where f' = unrotateCSN])
     (auto simp: unrotate_rotate rotate_unrotate rotateCSN_length unrotateCSN_length)

lemma rotateCSN_inj: "length a = 8 \<Longrightarrow> length b = 8 \<Longrightarrow> (rotateCSN a = rotateCSN b) = (a = b)"
  by (metis unrotate_rotate)

lemma rotateCSN_default:
  "rotateCSN default_csn = [0xe0, 0x83, 0x5d, 0xf1, 0xfe, 0x5f, 0x02, 0x7c]"
  by (simp add: rotateCSN_def default_csn_def upt8 rot_byte_def)

subsection \<open>The dispatch chain\<close>

lemmas cmd_defs = ICLASS_CMD_ACTALL_def ICLASS_CMD_READ_OR_IDENTIFY_def ICLASS_CMD_SELECT_def
  ICLASS_CMD_READCHECK_KD_def ICLASS_CMD_READCHECK_KC_def ICLASS_CMD_READ4_def

lemma step_actall: "doIClassSimulation_step E m s [0x0A] = on_actall s"
  by (simp add: doIClassSimulation_step_def cmd_defs)

lemma step_identify: "doIClassSimulation_step E m s [0x0C] = on_identify s"
  by (simp add: doIClassSimulation_step_def cmd_defs)

lemma step_select:
  "length p = 8 \<Longrightarrow> doIClassSimulation_step E m s (0x81 # p) = on_select s (0x81 # p)"
  by (simp add: doIClassSimulation_step_def cmd_defs)

lemma step_read:
  "doIClassSimulation_step E m s [0x0C, b, c1, c2] = on_read E m s [0x0C, b, c1, c2]"
  by (simp add: doIClassSimulation_step_def cmd_defs)

lemma step_pagesel:
  assumes "ICLASS_CMD_PAGESEL E \<noteq> 0x0C" "ICLASS_CMD_PAGESEL E \<noteq> 0x06"
  shows "doIClassSimulation_step E m s [ICLASS_CMD_PAGESEL E, b, c1, c2] =
         on_pagesel E m s [ICLASS_CMD_PAGESEL E, b, c1, c2]"
  using assms by (simp add: doIClassSimulation_step_def cmd_defs)



lemma step_outside_table:
  assumes "\<not> in_command_table E m f"
  shows "doIClassSimulation_step E m s f = (s, None)"
  using assms unfolding doIClassSimulation_step_def in_command_table_def Let_def
  by (simp only: de_Morgan_disj if_False simp_thms split: if_split) blast

lemma step_ignores_crc4:
  "doIClassSimulation_step E m s [c, b, x, y] = doIClassSimulation_step E m s [c, b, x', y']"
  by (simp add: doIClassSimulation_step_def Let_def on_read_def on_read4_def on_pagesel_def)

subsection \<open>The start of a session\<close>

lemma crc_bytes_length: "length (crc_bytes E xs) = 2"
  by (simp add: crc_bytes_def)

lemma AppendCrc_exact:
  "length xs = n \<Longrightarrow> length r = 2 \<Longrightarrow> AppendCrc E (xs @ r) n = xs @ crc_bytes E xs"
  by (simp add: AppendCrc_def crc_bytes_def Let_def)

lemma fold_precalc_page:
  "fold (precalc_page E) xs s =
     s\<lparr>cipher_state_KC := cipher_state_KC (fold (precalc_page E) xs s),
       cipher_state_KD := cipher_state_KD (fold (precalc_page E) xs s),
       mac1_calls := mac1_calls (fold (precalc_page E) xs s)\<rparr>"
proof (induction xs arbitrary: s)
  case Nil
  show ?case by simp
next
  case (Cons x xs)
  show ?case
    by (subst (1) fold_simps(2), subst Cons.IH) (simp add: precalc_page_def Let_def)
qed

lemma init_fields:
  "chip_state (doIClassSimulation_init E m emu rmb kd0 kc0) = IDLE"
  "current_page (doIClassSimulation_init E m emu rmb kd0 kc0) = 0"
  "exitLoop (doIClassSimulation_init E m emu rmb kd0 kc0) = False"
  "cipher_state (doIClassSimulation_init E m emu rmb kd0 kc0) = (Kd, 0)"
  "emulator (doIClassSimulation_init E m emu rmb kd0 kc0) = emu"
  "csn_data (doIClassSimulation_init E m emu rmb kd0 kc0) = AppendCrc E (mem_read emu 0 10) 8"
  "anticoll_data (doIClassSimulation_init E m emu rmb kd0 kc0) =
     AppendCrc E (rotateCSN (mem_read emu 0 10) @ [0, 0]) 8"
  unfolding doIClassSimulation_init_def doIClassSimulation_setup_def Let_def
  by (subst fold_precalc_page, simp)+

lemma init_emulates:
  "emulates E (mem_read emu 0 8) (doIClassSimulation_init E m emu rmb kd0 kc0)"
  unfolding emulates_def init_fields mem_read_10
  by (simp add: AppendCrc_exact mem_read_length rotateCSN_prefix rotateCSN_length)

lemma demo_emu_csn: "mem_read demo_emu 0 8 = default_csn"
  by (simp add: mem_read_def demo_emu_def mem_write_def default_csn_def upt8)

lemma demo_init_emulates: "emulates demo_externals default_csn (demo_init m)"
  using init_emulates [of demo_externals demo_emu] by (simp add: demo_init_def demo_emu_csn)

subsection \<open>The select sequence and the scenario\<close>

lemma select_steps:
  assumes "emulates E csn s"
  shows "chip_state s = IDLE \<Longrightarrow> doIClassSimulation_step E m s [0x0A]
           = (s\<lparr>chip_state := ACTIVATED\<rparr>, send CodeIClassTagSOF [])"
    and "doIClassSimulation_step E m (s\<lparr>chip_state := ACTIVATED\<rparr>) [0x0C]
           = (s\<lparr>chip_state := ACTIVATED\<rparr>,
              send_coded (rotateCSN csn @ crc_bytes E (rotateCSN csn)))"
    and "doIClassSimulation_step E m (s\<lparr>chip_state := ACTIVATED\<rparr>) (0x81 # rotateCSN csn)
           = (s\<lparr>chip_state := SELECTED\<rparr>, send_coded (csn @ crc_bytes E csn))"
    and "length p = 8 \<Longrightarrow> p \<noteq> rotateCSN csn \<Longrightarrow>
         doIClassSimulation_step E m (s\<lparr>chip_state := ACTIVATED\<rparr>) (0x81 # p)
           = (s\<lparr>chip_state := IDLE\<rparr>, None)"
proof -
  from assms have csn: "length csn = 8" "csn_data s = csn @ crc_bytes E csn"
    "anticoll_data s = rotateCSN csn @ crc_bytes E (rotateCSN csn)"
    by (simp_all add: emulates_def)
  show "chip_state s = IDLE \<Longrightarrow> doIClassSimulation_step E m s [0x0A]
           = (s\<lparr>chip_state := ACTIVATED\<rparr>, send CodeIClassTagSOF [])"
    by (simp add: step_actall on_actall_def resp_sof_def)
  show "doIClassSimulation_step E m (s\<lparr>chip_state := ACTIVATED\<rparr>) [0x0C]
             = (s\<lparr>chip_state := ACTIVATED\<rparr>,
                send_coded (rotateCSN csn @ crc_bytes E (rotateCSN csn)))"
    by (simp add: step_identify on_identify_def csn)
  show "doIClassSimulation_step E m (s\<lparr>chip_state := ACTIVATED\<rparr>) (0x81 # rotateCSN csn)
             = (s\<lparr>chip_state := SELECTED\<rparr>, send_coded (csn @ crc_bytes E csn))"
    by (simp add: step_select rotateCSN_length on_select_def csn)
  show "length p = 8 \<Longrightarrow> p \<noteq> rotateCSN csn \<Longrightarrow>
         doIClassSimulation_step E m (s\<lparr>chip_state := ACTIVATED\<rparr>) (0x81 # p)
             = (s\<lparr>chip_state := IDLE\<rparr>, None)"
    by (simp add: step_select on_select_def csn rotateCSN_length)
qed

lemma loop_select:
  assumes "emulates E csn s" "chip_state s = IDLE" "\<not> exitLoop s"
  shows "doIClassSimulation_loop E m s ([0x0A] # [0x0C] # (0x81 # rotateCSN csn) # fs) =
     (fst (doIClassSimulation_loop E m (s\<lparr>chip_state := SELECTED\<rparr>) fs),
      send CodeIClassTagSOF [] #
      send_coded (rotateCSN csn @ crc_bytes E (rotateCSN csn)) #
      send_coded (csn @ crc_bytes E csn) #
      snd (doIClassSimulation_loop E m (s\<lparr>chip_state := SELECTED\<rparr>) fs))"
  using assms
  by (simp add: select_steps [OF assms(1)] split_beta)

lemma loop_single:
  "\<not> exitLoop s \<Longrightarrow> doIClassSimulation_loop E m s [f] =
     (fst (doIClassSimulation_step E m s f), [snd (doIClassSimulation_step E m s f)])"
  by (simp add: split_beta)

lemma init_conf_block:
  "conf_block (doIClassSimulation_init E m emu rmb kd0 kc0) =
     (if m = ICLASS_SIM_MODE_FULL then mem_read emu 8 8 @ crc_bytes E (mem_read emu 8 8)
      else [0x12, 0xFF, 0xFF, 0xFF, 0x7F, 0x1F, 0xFF, 0x3C] @
           crc_bytes E [0x12, 0xFF, 0xFF, 0xFF, 0x7F, 0x1F, 0xFF, 0x3C])"
proof -
  have "conf_block (doIClassSimulation_init E m emu rmb kd0 kc0) =
     AppendCrc E (if m = ICLASS_SIM_MODE_FULL then mem_read emu (8 * 1) 8 @ [0x00, 0x00]
                  else [0x12, 0xFF, 0xFF, 0xFF, 0x7F, 0x1F, 0xFF, 0x3C] @ [0x00, 0x00]) 8"
    unfolding doIClassSimulation_init_def doIClassSimulation_setup_def Let_def
    by (subst fold_precalc_page, simp)
  then show ?thesis
    by (simp add: AppendCrc_exact mem_read_length del: append.simps)
qed

lemma init_max_page:
  "max_page (doIClassSimulation_init E m emu rmb kd0 kc0) =
     (if conf_block (doIClassSimulation_init E m emu rmb kd0 kc0) ! 4 AND 0x10 \<noteq> 0 then 0 else 7)"
  unfolding doIClassSimulation_init_def doIClassSimulation_setup_def Let_def
  by (subst fold_precalc_page, subst fold_precalc_page, simp)

lemma mem_write_read: "mem_read (mem_write emu off xs) off (length xs) = xs"
  by (rule nth_equalityI) (simp_all add: mem_read_def mem_write_def)

lemma default_csn_length: "length default_csn = 8"
  by (simp add: default_csn_def)

lemma init_emulates_default:
  "emulates E default_csn (doIClassSimulation_init E m (mem_write emu 0 default_csn) rmb kd0 kc0)"
  using init_emulates [of E "mem_write emu 0 default_csn" m rmb kd0 kc0]
    mem_write_read [of emu 0 default_csn]
  by (simp add: default_csn_length)

lemma scenario_loop:
  assumes "s0 = doIClassSimulation_init E m (mem_write emu 0 default_csn) rmb kd0 kc0"
  shows "snd (doIClassSimulation_loop E m s0 scenario_frames) =
      [send CodeIClassTagSOF [],
       send_coded (rotateCSN default_csn @ crc_bytes E (rotateCSN default_csn)),
       send_coded (default_csn @ crc_bytes E default_csn),
       snd (on_read E m (s0\<lparr>chip_state := SELECTED\<rparr>) [0x0c, 0x01, 0xfa, 0x22])]"
proof -
  have e: "emulates E default_csn s0"
    unfolding assms by (rule init_emulates_default)
  have i: "chip_state s0 = IDLE" "\<not> exitLoop s0"
    unfolding assms by (simp_all add: init_fields)
  show ?thesis
    unfolding scenario_frames_def
    by (subst loop_select [OF e i]) (simp add: i step_read split_beta)
qed

lemma crc_demo:
  "crc_bytes demo_externals [0xe0, 0x83, 0x5d, 0xf1, 0xfe, 0x5f, 0x02, 0x7c] = [0x55, 0x3f]"
  "crc_bytes demo_externals default_csn = [0xae, 0x86]"
  by (simp_all add: crc_bytes_def demo_externals_def ComputeCrc14443_ICLASS_def
        UpdateCrc14443_def default_csn_def)


lemma demo_max_page: "max_page (demo_init ICLASS_SIM_MODE_FULL) = 7"
  by (simp add: demo_init_def init_max_page init_conf_block nth_append mem_read_def
        demo_emu_def mem_write_def default_csn_def)

lemma update_ignores_trailer:
  assumes "length d = 8"
  shows "doIClassSimulation_step E m s (c # b # d @ [x, y]) =
         doIClassSimulation_step E m s (c # b # d @ [x', y'])"
  using assms by (simp add: doIClassSimulation_step_def Let_def on_update_def)


subsection \<open>Where cipher states are derived\<close>























subsection \<open>Reader frames through the decoder\<close>

lemma reader_samples_smp: "reader_samples bs = smp (tosend_bits bs)"
  by (simp add: reader_samples_def smp_def)

lemma feed_reader_append:
  "feed_reader (xs @ ys) d =
     (if fst (feed_reader xs d) then feed_reader xs d else feed_reader ys (snd (feed_reader xs d)))"
  by (induction xs arbitrary: d) (auto split: prod.splits bool.splits)

lemma sof4_bits: "tosend_bits [0x84] = [True, False, False, False, False, True, False, False]"
  by (simp add: tosend_bits_def upt8)

lemma rep4: "replicate 4 x = [x, x, x, x]"
  by (simp add: numeral_eq_Suc)

lemma sof_1of4:
  assumes "r_state d = STATE_READER_AWAIT_1ST_FALLING_EDGE_OF_SOF"
  shows "feed_reader (reader_samples [0x84] @ [1]) d =
     (False, d\<lparr>r_posCount := 1, r_bitCount := 0, r_byteCount := 0, r_sum1 := 1,
               r_Coding := CODING_1_OUT_OF_4,
               r_state := STATE_READER_RECEIVE_DATA_1_OUT_OF_4\<rparr>)"
  using assms
  by (simp add: reader_samples_smp sof4_bits smp_def rep4 Handle15693SampleFromReader_def
        DecodeReaderReset_def)

lemma shift_in_2bits_word: "shift_in_2bits sr bc = drop_bit 2 sr OR push_bit 6 (take_bit 2 bc)"
  unfolding shift_in_2bits_def
  by (rule bit_eqI) (auto simp: bit_simps)

lemma take_bit_2_vals:
  "take_bit 2 (0 :: byte) = 0" "take_bit 2 (1 :: byte) = 1" "take_bit 2 (2 :: byte) = 2"
  "take_bit 2 (3 :: byte) = 3" "take_bit 2 (4 :: byte) = 0" "take_bit 2 (5 :: byte) = 1"
  "take_bit 2 (6 :: byte) = 2" "take_bit 2 (7 :: byte) = 3" "take_bit 2 (8 :: byte) = 0"
  "take_bit 2 (9 :: byte) = 1" "take_bit 2 (10 :: byte) = 2" "take_bit 2 (11 :: byte) = 3"
  "take_bit 2 (12 :: byte) = 0" "take_bit 2 (13 :: byte) = 1" "take_bit 2 (14 :: byte) = 2"
  "take_bit 2 (15 :: byte) = 3"
  by (simp_all add: take_bit_eq_mod word_mod_def)

lemma byte_le3_cases: "(v :: byte) \<le> 3 \<Longrightarrow> v = 0 \<or> v = 1 \<or> v = 2 \<or> v = 3"
proof -
  assume "v \<le> 3"
  then have "unat v \<le> 3" by (simp add: word_le_nat_alt)
  then have "unat v = 0 \<or> unat v = 1 \<or> unat v = 2 \<or> unat v = 3" by arith
  then show ?thesis by (auto simp: word_unat_eq_iff)
qed

lemma pat_bits:
  "tosend_bits [0x40] = [False, True, False, False, False, False, False, False]"
  "tosend_bits [0x10] = [False, False, False, True, False, False, False, False]"
  "tosend_bits [0x04] = [False, False, False, False, False, True, False, False]"
  "tosend_bits [0x01] = [False, False, False, False, False, False, False, True]"
  "tosend_bits [0x20] = [False, False, True, False, False, False, False, False]"
  "tosend_bits [0x81] = [True, False, False, False, False, False, False, True]"
  by (simp_all add: tosend_bits_def upt8)

lemmas reader_eval = reader_samples_smp smp_def rep4 Handle15693SampleFromReader_def
  receive_1_out_of_4_def receive_1_out_of_256_def reader_accumulate_def DecodeReaderReset_def Let_def

lemma sym4_step:
  assumes "r_state d = STATE_READER_RECEIVE_DATA_1_OUT_OF_4" "r_posCount d = 0"
      and "r_bitCount d = 0 \<or> r_bitCount d = 4 \<or> r_bitCount d = 8" "v \<le> 3"
  shows "feed_reader (reader_samples [one_of_4_pattern v]) d =
     (False, d\<lparr>r_posCount := 0, r_sum1 := 4, r_sum2 := (if v = 3 then 0 else 4),
               r_shiftReg := drop_bit 2 (r_shiftReg d) OR push_bit 6 v,
               r_bitCount := r_bitCount d + 4\<rparr>)"
proof -
  from assms(4) have v: "v = 0 \<or> v = 1 \<or> v = 2 \<or> v = 3" by (rule byte_le3_cases)
  show ?thesis
    using assms(1-3) v
    apply (elim disjE)
    apply (simp_all add: one_of_4_pattern_def pat_bits reader_eval shift_in_2bits_word take_bit_2_vals)
    done
qed

lemma sym4_last:
  assumes "r_state d = STATE_READER_RECEIVE_DATA_1_OUT_OF_4" "r_posCount d = 0"
      and "r_bitCount d = 12" "v \<le> 3"
  shows "feed_reader (reader_samples [one_of_4_pattern v]) d =
     (False, (reader_store_byte
                (d\<lparr>r_posCount := 0, r_sum1 := 4, r_sum2 := (if v = 3 then 0 else 4),
                   r_shiftReg := drop_bit 2 (r_shiftReg d) OR push_bit 6 v,
                   r_bitCount := 15\<rparr>))\<lparr>r_bitCount := 0, r_shiftReg := 0\<rparr>)"
proof -
  from assms(4) have v: "v = 0 \<or> v = 1 \<or> v = 2 \<or> v = 3" by (rule byte_le3_cases)
  show ?thesis
    using assms(1-3) v
    apply (elim disjE)
    apply (simp_all add: one_of_4_pattern_def pat_bits reader_eval shift_in_2bits_word
             take_bit_2_vals reader_store_byte_def)
    done
qed

lemma and3_take_bit: "(x :: byte) AND 3 = take_bit 2 x"
  by (simp add: take_bit_eq_mask mask_eq_exp_minus_1)

lemma and3_le: "(x :: byte) AND 3 \<le> 3"
  by (rule word_and_le1)

lemma recombine_2bit_fields:
  "drop_bit 2 (drop_bit 2 (drop_bit 2 (drop_bit 2 sr OR push_bit 6 (c AND 3))
                             OR push_bit 6 (drop_bit 2 c AND 3))
                 OR push_bit 6 (drop_bit 4 c AND 3))
     OR push_bit 6 (drop_bit 6 c AND 3) = (c :: byte)"
  unfolding and3_take_bit
proof (rule bit_eqI)
  fix n
  assume "possible_bit TYPE(byte) n"
  then have "n < 8" by (simp add: possible_bit_def)
  then consider "n = 0" | "n = 1" | "n = 2" | "n = 3" | "n = 4" | "n = 5" | "n = 6" | "n = 7"
    by linarith
  then show "bit (drop_bit 2 (drop_bit 2 (drop_bit 2 (drop_bit 2 sr OR push_bit 6 (take_bit 2 c))
                             OR push_bit 6 (take_bit 2 (drop_bit 2 c)))
                 OR push_bit 6 (take_bit 2 (drop_bit 4 c)))
     OR push_bit 6 (take_bit 2 (drop_bit 6 c))) n = bit c n"
    by cases (simp_all add: bit_simps)
qed

lemma reader_samples_append: "reader_samples (xs @ ys) = reader_samples xs @ reader_samples ys"
  by (simp add: reader_samples_def tosend_bits_def)

lemma reader_samples_Cons: "reader_samples (x # xs) = reader_samples [x] @ reader_samples xs"
  using reader_samples_append [of "[x]" xs] by simp

lemma byte_1of4:
  assumes "r_state d = STATE_READER_RECEIVE_DATA_1_OUT_OF_4" "r_posCount d = 0"
      and "r_bitCount d = 0"
  shows "feed_reader (reader_samples (sym4 c)) d =
     (False, (reader_store_byte
                (d\<lparr>r_posCount := 0, r_sum1 := 4,
                   r_sum2 := (if drop_bit 6 c AND 3 = 3 then 0 else 4),
                   r_shiftReg := c, r_bitCount := 15\<rparr>))\<lparr>r_bitCount := 0, r_shiftReg := 0\<rparr>)"
proof -
  let ?v0 = "c AND 3" and ?v1 = "drop_bit 2 c AND 3"
  let ?v2 = "drop_bit 4 c AND 3" and ?v3 = "drop_bit 6 c AND 3"
  define d1 where "d1 = d\<lparr>r_posCount := 0, r_sum1 := 4, r_sum2 := (if ?v0 = 3 then 0 else 4),
               r_shiftReg := drop_bit 2 (r_shiftReg d) OR push_bit 6 ?v0,
               r_bitCount := r_bitCount d + 4\<rparr>"
  define d2 where "d2 = d1\<lparr>r_posCount := 0, r_sum1 := 4, r_sum2 := (if ?v1 = 3 then 0 else 4),
               r_shiftReg := drop_bit 2 (r_shiftReg d1) OR push_bit 6 ?v1,
               r_bitCount := r_bitCount d1 + 4\<rparr>"
  define d3 where "d3 = d2\<lparr>r_posCount := 0, r_sum1 := 4, r_sum2 := (if ?v2 = 3 then 0 else 4),
               r_shiftReg := drop_bit 2 (r_shiftReg d2) OR push_bit 6 ?v2,
               r_bitCount := r_bitCount d2 + 4\<rparr>"
  have s1: "feed_reader (reader_samples [one_of_4_pattern ?v0]) d = (False, d1)"
    unfolding d1_def using assms by (intro sym4_step and3_le) simp_all
  have p1: "r_state d1 = STATE_READER_RECEIVE_DATA_1_OUT_OF_4" "r_posCount d1 = 0"
    "r_bitCount d1 = 4"
    using assms by (simp_all add: d1_def)
  have s2: "feed_reader (reader_samples [one_of_4_pattern ?v1]) d1 = (False, d2)"
    unfolding d2_def using p1 by (intro sym4_step and3_le) simp_all
  have p2: "r_state d2 = STATE_READER_RECEIVE_DATA_1_OUT_OF_4" "r_posCount d2 = 0"
    "r_bitCount d2 = 8"
    using p1 by (simp_all add: d2_def)
  have s3: "feed_reader (reader_samples [one_of_4_pattern ?v2]) d2 = (False, d3)"
    unfolding d3_def using p2 by (intro sym4_step and3_le) simp_all
  have p3: "r_state d3 = STATE_READER_RECEIVE_DATA_1_OUT_OF_4" "r_posCount d3 = 0"
    "r_bitCount d3 = 12"
    using p2 by (simp_all add: d3_def)
  note s4 = sym4_last [OF p3 and3_le, of "drop_bit 6 c"]
  have r1: "r_shiftReg d1 = drop_bit 2 (r_shiftReg d) OR push_bit 6 ?v0"
    by (simp add: d1_def)
  have r2: "r_shiftReg d2 = drop_bit 2 (r_shiftReg d1) OR push_bit 6 ?v1"
    by (simp add: d2_def)
  have r3: "r_shiftReg d3 = drop_bit 2 (r_shiftReg d2) OR push_bit 6 ?v2"
    by (simp add: d3_def)
  have sr: "drop_bit 2 (r_shiftReg d3) OR push_bit 6 ?v3 = c"
    unfolding r3 r2 r1 by (rule recombine_2bit_fields)
  have "feed_reader (reader_samples (sym4 c)) d =
          feed_reader (reader_samples [one_of_4_pattern ?v3]) d3"
    unfolding sym4_def
    apply (subst reader_samples_Cons, subst feed_reader_append, simp add: s1)
    apply (subst reader_samples_Cons, subst feed_reader_append, simp add: s2)
    apply (subst reader_samples_Cons, subst feed_reader_append, simp add: s3)
    done
  also have "\<dots> = (False, (reader_store_byte
                (d\<lparr>r_posCount := 0, r_sum1 := 4,
                   r_sum2 := (if ?v3 = 3 then 0 else 4),
                   r_shiftReg := c, r_bitCount := 15\<rparr>))\<lparr>r_bitCount := 0, r_shiftReg := 0\<rparr>)"
    unfolding s4 sr by (simp add: d3_def d2_def d1_def)
  finally show ?thesis .
qed

lemma map_upd_upto: "map (f(n := c)) [0..<n] = map f [0..<n]"
  by simp

lemma byte_1of4_receiving:
  assumes "receiving STATE_READER_RECEIVE_DATA_1_OUT_OF_4 M d n out" "n < M"
  shows "\<not> fst (feed_reader (reader_samples (sym4 c)) d) \<and>
         receiving STATE_READER_RECEIVE_DATA_1_OUT_OF_4 M
           (snd (feed_reader (reader_samples (sym4 c)) d)) (Suc n) (out @ [c])"
proof -
  from assms(1) have p: "r_state d = STATE_READER_RECEIVE_DATA_1_OUT_OF_4" "r_posCount d = 0"
    "r_bitCount d = 0" "r_byteCount d = int n" "r_byteCountMax d = int M"
    "map (r_output d) [0..<n] = out"
    by (simp_all add: receiving_def)
  show ?thesis
    unfolding byte_1of4 [OF p(1-3)]
    using p assms(2) by (simp add: receiving_def reader_store_byte_def Let_def DecodeReaderReset_def)
qed

lemma data_1of4:
  assumes "receiving STATE_READER_RECEIVE_DATA_1_OUT_OF_4 M d n out" "n + length bs \<le> M"
  shows "\<not> fst (feed_reader (reader_samples (concat (map sym4 bs))) d) \<and>
         receiving STATE_READER_RECEIVE_DATA_1_OUT_OF_4 M
           (snd (feed_reader (reader_samples (concat (map sym4 bs))) d))
           (n + length bs) (out @ bs)"
  using assms
proof (induction bs arbitrary: d n out)
  case Nil
  then show ?case by (simp add: reader_samples_def tosend_bits_def)
next
  case (Cons c bs)
  from Cons.prems(2) have n: "n < M" "Suc n + length bs \<le> M" by simp_all
  note b = byte_1of4_receiving [OF Cons.prems(1) n(1), of c]
  note r = Cons.IH [OF conjunct2 [OF b] n(2)]
  show ?case
    using b r by (simp add: reader_samples_append feed_reader_append)
qed

lemma eof_reader:
  assumes "receiving st M d n out" "1 \<le> n"
      and "st = STATE_READER_RECEIVE_DATA_1_OUT_OF_4 \<or> st = STATE_READER_RECEIVE_DATA_1_OUT_OF_256"
  shows "fst (feed_reader (reader_samples [0x20] @ rest) d) \<and>
         r_state (snd (feed_reader (reader_samples [0x20] @ rest) d)) = STATE_READER_UNSYNCD \<and>
         reader_frame (snd (feed_reader (reader_samples [0x20] @ rest) d)) = out"
proof -
  from assms(1) have p: "r_state d = st" "r_posCount d = 0"
    "r_bitCount d = 0" "r_byteCount d = int n" "r_byteCountMax d = int M"
    "map (r_output d) [0..<n] = out"
    by (simp_all add: receiving_def)
  show ?thesis
    using assms(3) p assms(2)
    by (elim disjE) (simp_all add: pat_bits reader_eval reader_frame_def)
qed

lemma idle_wait:
  "r_state d = STATE_READER_AWAIT_1ST_FALLING_EDGE_OF_SOF \<Longrightarrow>
   feed_reader (replicate k 1 @ xs) d = feed_reader xs d"
  by (induction k) (simp_all add: Handle15693SampleFromReader_def)

lemma idle_start:
  assumes "r_state d = STATE_READER_UNSYNCD" "1 \<le> k"
  shows "feed_reader (replicate k 1 @ xs) d =
         feed_reader xs (d\<lparr>r_state := STATE_READER_AWAIT_1ST_FALLING_EDGE_OF_SOF\<rparr>)"
proof -
  from assms(2) obtain j where k: "k = Suc j" by (cases k) simp_all
  show ?thesis
    unfolding k using assms(1)
    by (simp add: Handle15693SampleFromReader_def idle_wait)
qed

lemma sof_1of4_then:
  assumes "r_state d = STATE_READER_AWAIT_1ST_FALLING_EDGE_OF_SOF"
  shows "feed_reader (reader_samples [0x84] @ 1 # xs) d =
         feed_reader (1 # xs)
           (d\<lparr>r_posCount := 0, r_bitCount := 0, r_byteCount := 0, r_sum1 := 1,
              r_Coding := CODING_1_OUT_OF_4,
              r_state := STATE_READER_RECEIVE_DATA_1_OUT_OF_4\<rparr>)"
  using assms
  apply (simp add: pat_bits sof4_bits reader_eval)
  apply (rule arg_cong [where f = "feed_reader xs"])
  apply (rule DecodeReader.equality; simp)
  done

lemma fold_code_1of4: "fold code_1of4_byte bs t = t\<lparr>ToSend := ToSend t @ concat (map sym4 bs)\<rparr>"
  by (induction bs arbitrary: t) (simp_all add: code_1of4_byte_def ToSendByte_def sym4_def)

lemma CodeIso15693AsReader_eq:
  "CodeIso15693AsReader bs = 0x84 # concat (map sym4 bs) @ [0x20]"
  by (simp add: CodeIso15693AsReader_def fold_code_1of4 ToSendByte_def ToSendReset_def)

lemma sym4_samples_hd: "\<exists>xs. reader_samples (sym4 c) = 1 # xs"
proof -
  have "c AND 3 = 0 \<or> c AND 3 = 1 \<or> c AND 3 = 2 \<or> c AND 3 = 3"
    by (rule byte_le3_cases [OF and3_le])
  then show ?thesis
    unfolding sym4_def
    by (subst reader_samples_Cons)
       (auto simp: one_of_4_pattern_def reader_samples_smp pat_bits smp_def rep4)
qed

lemma roundtrip_1of4:
  assumes "1 \<le> length bs" "length bs \<le> unat max_len" "1 \<le> k"
  shows "fst (feed_reader (replicate k 1 @ reader_samples (CodeIso15693AsReader bs) @ rest)
                (DecodeReaderInit mem max_len d0)) \<and>
         reader_frame (snd (feed_reader
                (replicate k 1 @ reader_samples (CodeIso15693AsReader bs) @ rest)
                (DecodeReaderInit mem max_len d0))) = bs"
proof -
  let ?init = "DecodeReaderInit mem max_len d0"
  let ?d1 = "?init\<lparr>r_state := STATE_READER_AWAIT_1ST_FALLING_EDGE_OF_SOF\<rparr>"
  let ?d2 = "?d1\<lparr>r_posCount := 0, r_bitCount := 0, r_byteCount := 0, r_sum1 := 1,
              r_Coding := CODING_1_OUT_OF_4,
              r_state := STATE_READER_RECEIVE_DATA_1_OUT_OF_4\<rparr>"
  let ?data = "reader_samples (concat (map sym4 bs))"
  let ?tail = "reader_samples [0x20] @ rest"
  from assms(1) obtain c cs where bs: "bs = c # cs" by (cases bs) simp_all
  obtain xs where hd: "?data @ ?tail = 1 # xs"
    using sym4_samples_hd [of c] by (auto simp: bs reader_samples_append)
  have i: "r_state ?init = STATE_READER_UNSYNCD"
    by (simp add: DecodeReaderInit_def)
  have split: "replicate k 1 @ reader_samples (CodeIso15693AsReader bs) @ rest
                 = replicate k 1 @ reader_samples [0x84] @ ?data @ ?tail"
    unfolding CodeIso15693AsReader_eq
    by (subst reader_samples_Cons) (simp add: reader_samples_append)
  have run: "feed_reader (replicate k 1 @ reader_samples (CodeIso15693AsReader bs) @ rest) ?init
               = feed_reader (?data @ ?tail) ?d2"
    unfolding split hd
    by (subst idle_start [OF i assms(3)], subst sof_1of4_then) simp_all
  have r0: "receiving STATE_READER_RECEIVE_DATA_1_OUT_OF_4 (unat max_len) ?d2 0 []"
    by (simp add: receiving_def DecodeReaderInit_def)
  from data_1of4 [OF r0, of bs] assms(2)
  have d: "\<not> fst (feed_reader ?data ?d2)"
    "receiving STATE_READER_RECEIVE_DATA_1_OUT_OF_4 (unat max_len) (snd (feed_reader ?data ?d2))
       (length bs) bs"
    by simp_all
  from eof_reader [OF d(2) assms(1), of rest] d(1)
  show ?thesis
    unfolding run by (simp add: feed_reader_append)
qed

lemma smp_append: "smp (xs @ ys) = smp xs @ smp ys"
  by (simp add: smp_def)

lemma slot256:
  assumes "r_state d = STATE_READER_RECEIVE_DATA_1_OUT_OF_256" "r_posCount d = 0"
  shows "feed_reader (smp [False, p]) d =
     (False,
      (let d4 = d\<lparr>r_posCount := 0, r_sum1 := 4, r_sum2 := (if p then 0 else 4),
                  r_shiftReg := (if p then r_bitCount d else r_shiftReg d)\<rparr>;
           d5 = (if r_bitCount d = 255 then reader_store_byte d4 else d4)
       in d5\<lparr>r_bitCount := r_bitCount d + 1\<rparr>))"
  using assms
  by (cases p) (simp_all add: smp_def rep4 Handle15693SampleFromReader_def
        receive_1_out_of_256_def reader_accumulate_def DecodeReaderReset_def Let_def
        reader_store_byte_def)

lemma slots256_Suc: "slots256 c (Suc k) = slots256 c k @ [False, unat c = k]"
  by (simp add: slots256_def)

lemma of_nat_byte_eq_255: "k \<le> 255 \<Longrightarrow> ((of_nat k :: byte) = 255) = (k = 255)"
proof
  assume k: "k \<le> 255" and e: "(of_nat k :: byte) = 255"
  from e have "unat (of_nat k :: byte) = unat (255 :: byte)" by simp
  with k show "k = 255" by (simp add: unat_of_nat)
next
  assume "k = 255" then show "(of_nat k :: byte) = 255" by simp
qed

lemma slots256_run:
  assumes "receiving STATE_READER_RECEIVE_DATA_1_OUT_OF_256 M d n out"
  shows "k \<le> 255 \<Longrightarrow>
         \<not> fst (feed_reader (smp (slots256 c k)) d) \<and>
         in_byte256 M (snd (feed_reader (smp (slots256 c k)) d)) n out c k"
proof (induction k)
  case 0
  from assms show ?case
    by (simp add: slots256_def smp_def receiving_def in_byte256_def)
next
  case (Suc k)
  let ?d = "snd (feed_reader (smp (slots256 c k)) d)"
  from Suc have nf: "\<not> fst (feed_reader (smp (slots256 c k)) d)"
    and inv: "in_byte256 M ?d n out c k" by simp_all
  from Suc.prems have k: "k < 255" by simp
  then have ne: "(of_nat k :: byte) \<noteq> 255" by (simp add: of_nat_byte_eq_255)
  from inv have st: "r_state ?d = STATE_READER_RECEIVE_DATA_1_OUT_OF_256"
    and pc: "r_posCount ?d = 0" and bc: "r_bitCount ?d = of_nat k"
    by (simp_all add: in_byte256_def)
  have run: "feed_reader (smp (slots256 c (Suc k))) d =
             feed_reader (smp [False, unat c = k]) ?d"
    using nf by (simp add: slots256_Suc smp_append feed_reader_append)
  show ?case
    unfolding run slot256 [OF st pc]
    using inv ne k by (auto simp add: in_byte256_def Let_def bc)
qed

lemma byte_1of256_receiving:
  assumes "receiving STATE_READER_RECEIVE_DATA_1_OUT_OF_256 M d n out" "n < M"
  shows "\<not> fst (feed_reader (smp (slots256 c 256)) d) \<and>
         receiving STATE_READER_RECEIVE_DATA_1_OUT_OF_256 M
           (snd (feed_reader (smp (slots256 c 256)) d)) (Suc n) (out @ [c])"
proof -
  let ?d = "snd (feed_reader (smp (slots256 c 255)) d)"
  from slots256_run [OF assms(1), of 255 c]
  have nf: "\<not> fst (feed_reader (smp (slots256 c 255)) d)"
    and inv: "in_byte256 M ?d n out c 255" by simp_all
  from inv have st: "r_state ?d = STATE_READER_RECEIVE_DATA_1_OUT_OF_256"
    and pc: "r_posCount ?d = 0" and bc: "r_bitCount ?d = 255"
    by (simp_all add: in_byte256_def)
  have "unat c < 2 ^ LENGTH(8)" by (rule unsigned_less)
  then have c: "unat c < 255 \<or> c = 255"
    by (cases "unat c = 255") (auto simp add: word_unat_eq_iff)
  have s: "slots256 c 256 = slots256 c 255 @ [False, unat c = 255]"
    using slots256_Suc [of c 255] by simp
  have run: "feed_reader (smp (slots256 c 256)) d =
             feed_reader (smp [False, unat c = 255]) ?d"
    using nf by (simp add: s smp_append feed_reader_append)
  show ?thesis
    unfolding run slot256 [OF st pc]
    using inv c assms(2)
    by (auto simp add: in_byte256_def receiving_def Let_def bc reader_store_byte_def
          DecodeReaderReset_def map_upd_upto word_unat_eq_iff)
qed

lemma data_1of256:
  assumes "receiving STATE_READER_RECEIVE_DATA_1_OUT_OF_256 M d n out" "n + length bs \<le> M"
  shows "\<not> fst (feed_reader (smp (concat (map (\<lambda>c. slots256 c 256) bs))) d) \<and>
         receiving STATE_READER_RECEIVE_DATA_1_OUT_OF_256 M
           (snd (feed_reader (smp (concat (map (\<lambda>c. slots256 c 256) bs))) d))
           (n + length bs) (out @ bs)"
  using assms
proof (induction bs arbitrary: d n out)
  case Nil
  then show ?case by (simp add: smp_def)
next
  case (Cons c bs)
  from Cons.prems(2) have n: "n < M" "Suc n + length bs \<le> M" by simp_all
  note b = byte_1of256_receiving [OF Cons.prems(1) n(1), of c]
  note r = Cons.IH [OF conjunct2 [OF b] n(2)]
  show ?case
    using b r by (simp add: smp_append feed_reader_append)
qed

lemma sof_1of256_then:
  assumes "r_state d = STATE_READER_AWAIT_1ST_FALLING_EDGE_OF_SOF"
  shows "feed_reader (reader_samples [0x81] @ 1 # xs) d =
         feed_reader (1 # xs)
           (d\<lparr>r_posCount := 0, r_bitCount := 0, r_byteCount := 0, r_sum1 := 1,
              r_Coding := CODING_1_OUT_OF_256,
              r_state := STATE_READER_RECEIVE_DATA_1_OUT_OF_256\<rparr>)"
  using assms
  apply (simp add: pat_bits reader_eval receive_1_out_of_256_def reader_accumulate_def)
  apply (rule arg_cong [where f = "feed_reader xs"])
  apply (rule DecodeReader.equality; simp)
  done

lemma tosend_bits_append: "tosend_bits (xs @ ys) = tosend_bits xs @ tosend_bits ys"
  by (simp add: tosend_bits_def)

lemma tosend_bits_single: "tosend_bits [y] = map (\<lambda>i. bit y (7 - i)) [0..<8]"
  by (simp add: tosend_bits_def)

lemma length_tosend_bits: "length (tosend_bits xs) = 8 * length xs"
  by (induction xs) (simp_all add: tosend_bits_def)

lemma stuff_full:
  assumes "stuffed t bs" "ToSendBit t = 8"
  shows "stuffed (ToSendStuffBit b t) (bs @ [b])"
proof -
  have z: "tosend_bits [0 :: byte] = False # replicate 7 False"
    by (simp add: tosend_bits_def upt8 numeral_eq_Suc)
  have o: "tosend_bits [128 :: byte] = True # replicate 7 False"
    by (simp add: tosend_bits_def upt8 numeral_eq_Suc)
  from assms show ?thesis
    by (cases b) (simp_all add: stuffed_def ToSendStuffBit_def tosend_bits_append z o)
qed

lemma stuff_partial:
  assumes "stuffed t bs" "ToSendBit t < 8"
  shows "stuffed (ToSendStuffBit b t) (bs @ [b])"
proof -
  let ?k = "ToSendBit t"
  from assms have ne: "ToSend t \<noteq> []" and k1: "1 \<le> ?k"
    and H: "tosend_bits (ToSend t) = bs @ replicate (8 - ?k) False"
    by (simp_all add: stuffed_def)
  obtain xs y where t: "ToSend t = xs @ [y]"
    using ne by (cases "ToSend t" rule: rev_cases) simp_all
  let ?A = "tosend_bits xs"
  let ?L = "tosend_bits [y]"
  from H have H': "?A @ ?L = bs @ replicate (8 - ?k) False"
    by (simp add: t tosend_bits_append)
  have lenL: "length ?L = 8" by (simp add: length_tosend_bits)
  from H' have "length ?A + 8 = length bs + (8 - ?k)"
    using lenL by (metis length_append length_replicate)
  with assms(2) have lb: "length bs = length ?A + ?k" by simp
  define m where "m = drop (length ?A) bs"
  have lm: "length m = ?k" by (simp add: m_def lb)
  from H' have "take (length ?A) (?A @ ?L) = take (length ?A) (bs @ replicate (8 - ?k) False)"
    by simp
  then have tk: "take (length ?A) bs = ?A" using lb by simp
  then have bs: "bs = ?A @ m" unfolding m_def by (metis append_take_drop_id)
  from H' have L: "?L = m @ replicate (8 - ?k) False" unfolding bs by simp
  have bitL: "bit y (7 - i) = (if i < ?k then m ! i else False)" if "i < 8" for i
  proof -
    have "?L ! i = bit y (7 - i)" using that by (simp add: tosend_bits_single)
    moreover have "?L ! i = (if i < ?k then m ! i else False)"
      unfolding L using that lm assms(2) by (simp add: nth_append)
    ultimately show ?thesis by simp
  qed
  let ?y = "if b then y OR push_bit (7 - ?k) 1 else y"
  have L': "tosend_bits [?y] = m @ [b] @ replicate (7 - ?k) False"
  proof (rule nth_equalityI)
    show "length (tosend_bits [?y]) = length (m @ [b] @ replicate (7 - ?k) False)"
      using lm assms(2) by (simp add: length_tosend_bits)
  next
    fix i assume "i < length (tosend_bits [?y])"
    then have i: "i < 8" by (simp add: length_tosend_bits)
    have e: "(7 - i = 7 - ?k) = (i = ?k)"
      using i assms(2) by auto
    have p: "bit (push_bit (7 - ?k) (1 :: byte)) (7 - i) = (i = ?k)"
      using i e by (auto simp add: bit_simps)
    from p have p2: "bit (2 ^ (7 - ?k) :: byte) (7 - i) = (i = ?k)" by simp
    have "tosend_bits [?y] ! i = (bit y (7 - i) \<or> (b \<and> i = ?k))"
      using i by (simp add: tosend_bits_single bit_or_iff p2)
    also have "\<dots> = (m @ [b] @ replicate (7 - ?k) False) ! i"
      using i lm assms(2) bitL [OF i] by (auto simp add: nth_append nth_Cons')
    finally show "tosend_bits [?y] ! i = (m @ [b] @ replicate (7 - ?k) False) ! i" .
  qed
  have r: "8 - Suc ?k = 7 - ?k" by simp
  show ?thesis
    using assms(2) k1 L'
    by (cases b) (simp_all add: stuffed_def ToSendStuffBit_def t tosend_bits_append bs r)
qed

lemma stuff_step:
  assumes "stuffed t bs"
  shows "stuffed (ToSendStuffBit b t) (bs @ [b])"
proof (cases "ToSendBit t = 8")
  case True
  with assms show ?thesis by (rule stuff_full)
next
  case False
  with assms have "ToSendBit t < 8" by (simp add: stuffed_def)
  with assms show ?thesis by (rule stuff_partial)
qed

lemma code_1of256_slot_eq:
  "code_1of256_slot c j t = ToSendStuffBit (unat c = j) (ToSendStuffBit False t)"
  by (simp add: code_1of256_slot_def)

lemma stuffed_slots:
  "stuffed t bs \<Longrightarrow>
   stuffed (fold (code_1of256_slot c) js t) (bs @ concat (map (\<lambda>j. [False, unat c = j]) js))"
proof (induction js arbitrary: t bs)
  case Nil then show ?case by simp
next
  case (Cons j js)
  from stuff_step [OF stuff_step [OF Cons.prems, of False], of "unat c = j"]
  have "stuffed (code_1of256_slot c j t) (bs @ [False, unat c = j])"
    by (simp add: code_1of256_slot_eq)
  from Cons.IH [OF this] show ?case by simp
qed

lemma stuffed_bytes:
  "stuffed t bs \<Longrightarrow>
   stuffed (fold code_1of256_byte cs t) (bs @ concat (map (\<lambda>c. slots256 c 256) cs))"
proof (induction cs arbitrary: t bs)
  case Nil then show ?case by simp
next
  case (Cons c cs)
  from stuffed_slots [OF Cons.prems, of c "[0..<256]"]
  have "stuffed (code_1of256_byte c t) (bs @ slots256 c 256)"
    unfolding code_1of256_byte_def slots256_def .
  from Cons.IH [OF this] show ?case by simp
qed

lemma length_slots256: "length (slots256 c k) = 2 * k"
  by (induction k) (simp_all add: slots256_Suc slots256_def)

lemma length_concat_slots: "length (concat (map (\<lambda>c. slots256 c 256) cs)) = 512 * length cs"
  by (induction cs) (simp_all add: length_slots256)

lemma CodeIso15693AsReader256_bits:
  "tosend_bits (CodeIso15693AsReader256 cs) =
     tosend_bits [0x81] @ concat (map (\<lambda>c. slots256 c 256) cs) @ tosend_bits [0x20]"
proof -
  let ?u = "ToSendByte 0x81 ToSendReset"
  let ?t = "fold code_1of256_byte cs ?u"
  let ?bs = "tosend_bits [0x81] @ concat (map (\<lambda>c. slots256 c 256) cs)"
  have "stuffed ?u (tosend_bits [0x81])"
    by (simp add: stuffed_def ToSendByte_def ToSendReset_def)
  from stuffed_bytes [OF this, of cs] have s: "stuffed ?t ?bs" by simp
  then have k: "1 \<le> ToSendBit ?t" "ToSendBit ?t \<le> 8"
    and H: "tosend_bits (ToSend ?t) = ?bs @ replicate (8 - ToSendBit ?t) False"
    by (simp_all add: stuffed_def)
  from H have "length (tosend_bits (ToSend ?t)) = length (?bs @ replicate (8 - ToSendBit ?t) False)"
    by simp
  then have "8 * length (ToSend ?t) = 8 * (1 + 64 * length cs) + (8 - ToSendBit ?t)"
    by (simp add: length_tosend_bits length_concat_slots)
  then have "(8 * length (ToSend ?t)) mod 8 =
             (8 * (1 + 64 * length cs) + (8 - ToSendBit ?t)) mod 8"
    by (rule arg_cong)
  then have "(8 - ToSendBit ?t) mod 8 = 0"
    by (simp only: mod_mult_self4 mod_mult_self1_is_0)
  moreover have "8 - ToSendBit ?t < 8" using k by simp
  ultimately have "8 - ToSendBit ?t = 0" by simp
  with k have "ToSendBit ?t = 8" by simp
  with H have "tosend_bits (ToSend ?t) = ?bs" by simp
  then show ?thesis
    by (simp add: CodeIso15693AsReader256_def ToSendByte_def tosend_bits_append)
qed

lemma slots256_hd: "0 < k \<Longrightarrow> \<exists>ys. slots256 c k = False # ys"
proof (induction k)
  case 0 then show ?case by simp
next
  case (Suc k)
  show ?case
  proof (cases "k = 0")
    case True then show ?thesis by (simp add: slots256_def)
  next
    case False
    with Suc.IH obtain ys where "slots256 c k = False # ys" by auto
    then show ?thesis by (simp add: slots256_Suc)
  qed
qed

lemma roundtrip_1of256:
  assumes "1 \<le> length bs" "length bs \<le> unat max_len" "1 \<le> k"
  shows "fst (feed_reader (replicate k 1 @ reader_samples (CodeIso15693AsReader256 bs) @ rest)
                (DecodeReaderInit mem max_len d0)) \<and>
         reader_frame (snd (feed_reader
                (replicate k 1 @ reader_samples (CodeIso15693AsReader256 bs) @ rest)
                (DecodeReaderInit mem max_len d0))) = bs"
proof -
  let ?init = "DecodeReaderInit mem max_len d0"
  let ?d1 = "?init\<lparr>r_state := STATE_READER_AWAIT_1ST_FALLING_EDGE_OF_SOF\<rparr>"
  let ?d2 = "?d1\<lparr>r_posCount := 0, r_bitCount := 0, r_byteCount := 0, r_sum1 := 1,
              r_Coding := CODING_1_OUT_OF_256,
              r_state := STATE_READER_RECEIVE_DATA_1_OUT_OF_256\<rparr>"
  let ?data = "smp (concat (map (\<lambda>c. slots256 c 256) bs))"
  let ?tail = "reader_samples [0x20] @ rest"
  from assms(1) obtain c cs where bs: "bs = c # cs" by (cases bs) simp_all
  obtain ys where "slots256 c 256 = False # ys"
    using slots256_hd [of 256 c] by auto
  then obtain xs where hd: "?data @ ?tail = 1 # xs"
    by (simp add: bs smp_def rep4)
  have i: "r_state ?init = STATE_READER_UNSYNCD"
    by (simp add: DecodeReaderInit_def)
  have split: "replicate k 1 @ reader_samples (CodeIso15693AsReader256 bs) @ rest
                 = replicate k 1 @ reader_samples [0x81] @ ?data @ ?tail"
    by (simp add: reader_samples_smp CodeIso15693AsReader256_bits smp_append)
  have run: "feed_reader (replicate k 1 @ reader_samples (CodeIso15693AsReader256 bs) @ rest) ?init
               = feed_reader (?data @ ?tail) ?d2"
    unfolding split hd
    by (subst idle_start [OF i assms(3)], subst sof_1of256_then) simp_all
  have r0: "receiving STATE_READER_RECEIVE_DATA_1_OUT_OF_256 (unat max_len) ?d2 0 []"
    by (simp add: receiving_def DecodeReaderInit_def)
  from data_1of256 [OF r0, of bs] assms(2)
  have d: "\<not> fst (feed_reader ?data ?d2)"
    "receiving STATE_READER_RECEIVE_DATA_1_OUT_OF_256 (unat max_len) (snd (feed_reader ?data ?d2))
       (length bs) bs"
    by simp_all
  from eof_reader [OF d(2) assms(1), of rest] d(1)
  show ?thesis
    unfolding run by (simp add: feed_reader_append)
qed

subsection \<open>Overflow and end of frame\<close>

lemma rep11: "replicate 11 x = [x,x,x,x,x,x,x,x,x,x,x]"
  by (simp add: numeral_eq_Suc)

lemma rep13: "replicate 13 x = [x,x,x,x,x,x,x,x,x,x,x,x,x]"
  by (simp add: numeral_eq_Suc)

lemmas tag_eval = Handle15693SamplesFromTag_def tag_receiving_data_def tag_accumulate_def
  tag_store_byte_def tag_restart_def Let_def c_half_def NOISE_THRESHOLD_def
  MAX_PREVIOUS_AMPLITUDE_def DecodeTagInit_def DecodeTag_zero_def

lemma tag_sof_run:
  "feed_tag (tag_sof_samples @ xs) True (DecodeTagInit mem M (DecodeTag_zero mem0)) =
   feed_tag xs True
     ((DecodeTag_zero mem0)\<lparr>t_previous_amplitude := 0, t_posCount := 1,
        t_state := STATE_TAG_RECEIVING_DATA, t_output := mem, t_max_len := M,
        t_threshold_sof := 500, t_threshold_half := 2000, t_lastBit := SOF_PART2,
        t_sum1 := 0, t_sum2 := 4000\<rparr>)"
  by (simp add: tag_sof_samples_def rep11 rep13 tag_eval)

lemma tag_overflow_run:
  "fst (feed_tag (tag_sof_samples @ tag_byte_samples 0x12 @ tag_byte_samples 0xA5) True
          (DecodeTagInit (\<lambda>_. 0) 1 (DecodeTag_zero (\<lambda>_. 0)))) \<and>
   t_output (snd (feed_tag (tag_sof_samples @ tag_byte_samples 0x12 @ tag_byte_samples 0xA5) True
          (DecodeTagInit (\<lambda>_. 0) 1 (DecodeTag_zero (\<lambda>_. 0))))) 1 = 0xA5 \<and>
   t_len (snd (feed_tag (tag_sof_samples @ tag_byte_samples 0x12 @ tag_byte_samples 0xA5) True
          (DecodeTagInit (\<lambda>_. 0) 1 (DecodeTag_zero (\<lambda>_. 0))))) = 2"
  unfolding tag_sof_run
  by (simp add: tag_byte_samples_def tag_bit_samples_def upt8 tag_eval)

lemma byte_1of4_overflow:
  assumes "receiving STATE_READER_RECEIVE_DATA_1_OUT_OF_4 M d M out"
  shows "\<not> fst (feed_reader (reader_samples (sym4 c)) d) \<and>
         r_state (snd (feed_reader (reader_samples (sym4 c)) d)) = STATE_READER_UNSYNCD \<and>
         r_output (snd (feed_reader (reader_samples (sym4 c)) d)) M = c \<and>
         r_byteCount (snd (feed_reader (reader_samples (sym4 c)) d)) = int M + 1"
proof -
  from assms have p: "r_state d = STATE_READER_RECEIVE_DATA_1_OUT_OF_4" "r_posCount d = 0"
    "r_bitCount d = 0" "r_byteCount d = int M" "r_byteCountMax d = int M"
    by (simp_all add: receiving_def)
  show ?thesis
    unfolding byte_1of4 [OF p(1-3)]
    using p by (simp add: reader_store_byte_def Let_def DecodeReaderReset_def)
qed

lemma byte_1of256_overflow:
  assumes "receiving STATE_READER_RECEIVE_DATA_1_OUT_OF_256 M d M out"
  shows "\<not> fst (feed_reader (smp (slots256 c 256)) d) \<and>
         r_state (snd (feed_reader (smp (slots256 c 256)) d)) = STATE_READER_UNSYNCD \<and>
         r_output (snd (feed_reader (smp (slots256 c 256)) d)) M = c \<and>
         r_byteCount (snd (feed_reader (smp (slots256 c 256)) d)) = int M + 1"
proof -
  let ?d = "snd (feed_reader (smp (slots256 c 255)) d)"
  from slots256_run [OF assms, of 255 c]
  have nf: "\<not> fst (feed_reader (smp (slots256 c 255)) d)"
    and inv: "in_byte256 M ?d M out c 255" by simp_all
  from inv have st: "r_state ?d = STATE_READER_RECEIVE_DATA_1_OUT_OF_256"
    and pc: "r_posCount ?d = 0" and bc: "r_bitCount ?d = 255"
    by (simp_all add: in_byte256_def)
  have "unat c < 2 ^ LENGTH(8)" by (rule unsigned_less)
  then have c: "unat c < 255 \<or> c = 255"
    by (cases "unat c = 255") (auto simp add: word_unat_eq_iff)
  have s: "slots256 c 256 = slots256 c 255 @ [False, unat c = 255]"
    using slots256_Suc [of c 255] by simp
  have run: "feed_reader (smp (slots256 c 256)) d =
             feed_reader (smp [False, unat c = 255]) ?d"
    using nf by (simp add: s smp_append feed_reader_append)
  show ?thesis
    unfolding run slot256 [OF st pc]
    using inv c
    by (auto simp add: in_byte256_def Let_def bc reader_store_byte_def
          DecodeReaderReset_def word_unat_eq_iff)
qed

lemma reader_samples_Nil: "reader_samples [] = []"
  by (simp add: reader_samples_def tosend_bits_def)

lemma unsynced_eof:
  assumes "r_state d = STATE_READER_UNSYNCD"
  shows "\<not> fst (feed_reader (reader_samples [0x20]) d) \<and>
         r_output (snd (feed_reader (reader_samples [0x20]) d)) = r_output d \<and>
         r_byteCount (snd (feed_reader (reader_samples [0x20]) d)) = r_byteCount d"
  using assms by (simp add: pat_bits reader_eval)

lemma reader_overflow_1of4:
  assumes "length bs = Suc (unat max_len)" "1 \<le> k"
  shows "\<not> fst (feed_reader (replicate k 1 @ reader_samples (CodeIso15693AsReader bs))
                (DecodeReaderInit mem max_len d0)) \<and>
         r_output (snd (feed_reader (replicate k 1 @ reader_samples (CodeIso15693AsReader bs))
                (DecodeReaderInit mem max_len d0))) (unat max_len) = last bs \<and>
         r_byteCount (snd (feed_reader (replicate k 1 @ reader_samples (CodeIso15693AsReader bs))
                (DecodeReaderInit mem max_len d0))) = uint max_len + 1"
proof -
  let ?init = "DecodeReaderInit mem max_len d0"
  let ?d1 = "?init\<lparr>r_state := STATE_READER_AWAIT_1ST_FALLING_EDGE_OF_SOF\<rparr>"
  let ?d2 = "?d1\<lparr>r_posCount := 0, r_bitCount := 0, r_byteCount := 0, r_sum1 := 1,
              r_Coding := CODING_1_OUT_OF_4,
              r_state := STATE_READER_RECEIVE_DATA_1_OUT_OF_4\<rparr>"
  from assms(1) obtain cs c where bs: "bs = cs @ [c]" and cs: "length cs = unat max_len"
    by (cases bs rule: rev_cases) simp_all
  let ?data = "reader_samples (concat (map sym4 cs))"
  let ?last = "reader_samples (sym4 c)"
  let ?eof = "reader_samples [0x20]"
  from assms(1) obtain b bs' where "bs = b # bs'" by (cases bs) simp_all
  then obtain xs where hd: "?data @ ?last @ ?eof = 1 # xs"
    using sym4_samples_hd [of b] bs
    by (cases cs) (auto simp: reader_samples_append reader_samples_Nil)
  have i: "r_state ?init = STATE_READER_UNSYNCD"
    by (simp add: DecodeReaderInit_def)
  have split: "replicate k 1 @ reader_samples (CodeIso15693AsReader bs)
                 = replicate k 1 @ reader_samples [0x84] @ ?data @ ?last @ ?eof"
    unfolding CodeIso15693AsReader_eq bs
    by (subst reader_samples_Cons) (simp add: reader_samples_append)
  have run: "feed_reader (replicate k 1 @ reader_samples (CodeIso15693AsReader bs)) ?init
               = feed_reader (?data @ ?last @ ?eof) ?d2"
    unfolding split hd
    by (subst idle_start [OF i assms(2)], subst sof_1of4_then) simp_all
  have r0: "receiving STATE_READER_RECEIVE_DATA_1_OUT_OF_4 (unat max_len) ?d2 0 []"
    by (simp add: receiving_def DecodeReaderInit_def)
  let ?d3 = "snd (feed_reader ?data ?d2)"
  from data_1of4 [OF r0, of cs] cs
  have d: "\<not> fst (feed_reader ?data ?d2)"
    "receiving STATE_READER_RECEIVE_DATA_1_OUT_OF_4 (unat max_len) ?d3 (unat max_len) cs"
    by simp_all
  let ?d4 = "snd (feed_reader ?last ?d3)"
  note o = byte_1of4_overflow [OF d(2), of c]
  from o have u: "r_state ?d4 = STATE_READER_UNSYNCD" by simp
  from unsynced_eof [OF u] o d(1)
  show ?thesis
    unfolding run by (simp add: feed_reader_append bs)
qed

lemma reader_accumulate_nz:
  "reader_accumulate b d =
     (if r_posCount d = 0 then d\<lparr>r_posCount := 1, r_sum1 := nz b\<rparr>
      else if r_posCount d + 1 \<le> 4 then d\<lparr>r_posCount := r_posCount d + 1, r_sum1 := r_sum1 d + nz b\<rparr>
      else if r_posCount d = 4 then d\<lparr>r_posCount := 5, r_sum2 := nz b\<rparr>
      else d\<lparr>r_posCount := r_posCount d + 1, r_sum2 := r_sum2 d + nz b\<rparr>)"
  by (simp add: reader_accumulate_def nz_def Let_def)

lemma receive4_true:
  assumes "fst (receive_1_out_of_4 b d)"
  shows "r_posCount d = 7 \<and> r_sum1 d \<le> 1 \<and> 3 \<le> r_sum2 d + nz b \<and> r_byteCount d \<noteq> 0 \<and>
         snd (receive_1_out_of_4 b d) =
           d\<lparr>r_posCount := 0, r_sum2 := r_sum2 d + nz b, r_state := STATE_READER_UNSYNCD\<rparr>"
  using assms
  by (auto simp add: receive_1_out_of_4_def reader_accumulate_nz DecodeReaderReset_def Let_def
      split: if_splits)

lemma receive256_true:
  assumes "fst (receive_1_out_of_256 b d)"
  shows "r_posCount d = 7 \<and> r_sum1 d \<le> 1 \<and> 3 \<le> r_sum2 d + nz b \<and> r_byteCount d \<noteq> 0 \<and>
         snd (receive_1_out_of_256 b d) =
           d\<lparr>r_posCount := 0, r_sum2 := r_sum2 d + nz b, r_state := STATE_READER_UNSYNCD\<rparr>"
  using assms
  by (auto simp add: receive_1_out_of_256_def reader_accumulate_nz DecodeReaderReset_def Let_def
      split: if_splits)

lemma handle_true:
  assumes "fst (Handle15693SampleFromReader b d)"
  shows "(r_state d = STATE_READER_RECEIVE_DATA_1_OUT_OF_4 \<or>
          r_state d = STATE_READER_RECEIVE_DATA_1_OUT_OF_256) \<and>
         r_posCount d = 7 \<and> r_sum1 d \<le> 1 \<and> 3 \<le> r_sum2 d + nz b \<and> r_byteCount d \<noteq> 0 \<and>
         snd (Handle15693SampleFromReader b d) =
           d\<lparr>r_posCount := 0, r_sum2 := r_sum2 d + nz b, r_state := STATE_READER_UNSYNCD\<rparr>"
proof (cases "r_state d")
  case STATE_READER_RECEIVE_DATA_1_OUT_OF_4
  with assms receive4_true [of b d] show ?thesis
    by (simp add: Handle15693SampleFromReader_def)
next
  case STATE_READER_RECEIVE_DATA_1_OUT_OF_256
  with assms receive256_true [of b d] show ?thesis
    by (simp add: Handle15693SampleFromReader_def)
qed (use assms in \<open>simp_all add: Handle15693SampleFromReader_def Let_def\<close>)

lemma handle_eof_no_bytes:
  assumes "r_state d = STATE_READER_RECEIVE_DATA_1_OUT_OF_4 \<or>
           r_state d = STATE_READER_RECEIVE_DATA_1_OUT_OF_256"
      and "r_posCount d = 7" "r_sum1 d \<le> 1" "3 \<le> r_sum2 d + nz b" "r_byteCount d = 0"
  shows "\<not> fst (Handle15693SampleFromReader b d) \<and>
         r_state (snd (Handle15693SampleFromReader b d)) = STATE_READER_UNSYNCD"
  using assms
  by (elim disjE)
     (simp_all add: Handle15693SampleFromReader_def receive_1_out_of_4_def
        receive_1_out_of_256_def reader_accumulate_nz DecodeReaderReset_def Let_def
        reader_store_byte_def)

lemma slot_sums:
  assumes "r_state d = STATE_READER_RECEIVE_DATA_1_OUT_OF_4 \<or>
           r_state d = STATE_READER_RECEIVE_DATA_1_OUT_OF_256"
      and "r_posCount d = 0"
  shows "feed_reader [e1, e2, e3, e4, e5, e6, e7] d =
         (False, d\<lparr>r_posCount := 7, r_sum1 := nz e1 + nz e2 + nz e3 + nz e4,
                    r_sum2 := nz e5 + nz e6 + nz e7\<rparr>)"
  using assms
  by (elim disjE)
     (simp_all add: Handle15693SampleFromReader_def receive_1_out_of_4_def
        receive_1_out_of_256_def reader_accumulate_nz Let_def)

lemma handle_frame_iff:
  assumes "r_state d = STATE_READER_RECEIVE_DATA_1_OUT_OF_4 \<or>
           r_state d = STATE_READER_RECEIVE_DATA_1_OUT_OF_256"
      and "r_posCount d = 7"
  shows "fst (Handle15693SampleFromReader b d) =
           (r_sum1 d \<le> 1 \<and> 3 \<le> r_sum2 d + nz b \<and> r_byteCount d \<noteq> 0)"
  using assms
  by (elim disjE)
     (auto simp add: Handle15693SampleFromReader_def receive_1_out_of_4_def
        receive_1_out_of_256_def reader_accumulate_nz DecodeReaderReset_def Let_def)

lemma slot_frame_iff:
  assumes "r_state d = STATE_READER_RECEIVE_DATA_1_OUT_OF_4 \<or>
           r_state d = STATE_READER_RECEIVE_DATA_1_OUT_OF_256"
      and "r_posCount d = 0" "length es = 8"
  shows "fst (feed_reader es d) = (eof_slot es \<and> r_byteCount d \<noteq> 0) \<and>
         (eof_slot es \<and> r_byteCount d = 0 \<longrightarrow>
            r_state (snd (feed_reader es d)) = STATE_READER_UNSYNCD)"
proof -
  from assms(3) obtain e1 e2 e3 e4 e5 e6 e7 e8 where es: "es = [e1, e2, e3, e4, e5, e6, e7, e8]"
    by (rule length8E)
  let ?d = "d\<lparr>r_posCount := 7, r_sum1 := nz e1 + nz e2 + nz e3 + nz e4,
                r_sum2 := nz e5 + nz e6 + nz e7\<rparr>"
  have s: "r_state ?d = STATE_READER_RECEIVE_DATA_1_OUT_OF_4 \<or>
           r_state ?d = STATE_READER_RECEIVE_DATA_1_OUT_OF_256"
    using assms(1) by simp
  have p: "r_posCount ?d = 7" by simp
  have "feed_reader es d = feed_reader ([e1, e2, e3, e4, e5, e6, e7] @ [e8]) d"
    by (simp add: es)
  also have "\<dots> = feed_reader [e8] ?d"
    unfolding feed_reader_append slot_sums [OF assms(1,2)] by simp
  finally have run: "feed_reader es d = feed_reader [e8] ?d" .
  have one: "fst (feed_reader [e8] ?d) = fst (Handle15693SampleFromReader e8 ?d)"
    "\<not> fst (Handle15693SampleFromReader e8 ?d) \<Longrightarrow>
       snd (feed_reader [e8] ?d) = snd (Handle15693SampleFromReader e8 ?d)"
    by (auto split: prod.splits bool.splits)
  have e: "eof_slot es = (nz e1 + nz e2 + nz e3 + nz e4 \<le> 1 \<and> 3 \<le> nz e5 + nz e6 + nz e7 + nz e8)"
    by (simp add: eof_slot_def es add.assoc)
  have f: "fst (feed_reader es d) = (eof_slot es \<and> r_byteCount d \<noteq> 0)"
    unfolding run one(1) handle_frame_iff [OF s p] e by simp
  have u: "r_state (snd (feed_reader es d)) = STATE_READER_UNSYNCD"
    if "eof_slot es" "r_byteCount d = 0"
  proof -
    from that have h: "r_sum1 ?d \<le> 1" "3 \<le> r_sum2 ?d + nz e8" "r_byteCount ?d = 0"
      by (simp_all add: e)
    from handle_eof_no_bytes [OF s p h] one(2) show ?thesis
      unfolding run by simp
  qed
  from f u show ?thesis by blast
qed

lemma stream_eof_no_bytes:
  assumes "\<not> fst (feed_reader ys d)"
      and "r_state (snd (feed_reader ys d)) = STATE_READER_RECEIVE_DATA_1_OUT_OF_4 \<or>
           r_state (snd (feed_reader ys d)) = STATE_READER_RECEIVE_DATA_1_OUT_OF_256"
      and "r_posCount (snd (feed_reader ys d)) = 7" "r_sum1 (snd (feed_reader ys d)) \<le> 1"
        "3 \<le> r_sum2 (snd (feed_reader ys d)) + nz b" "r_byteCount (snd (feed_reader ys d)) = 0"
  shows "\<not> fst (feed_reader (ys @ [b]) d) \<and>
         r_state (snd (feed_reader (ys @ [b]) d)) = STATE_READER_UNSYNCD"
proof -
  note h = handle_eof_no_bytes [OF assms(2-6)]
  have "feed_reader (ys @ [b]) d = feed_reader [b] (snd (feed_reader ys d))"
    using assms(1) by (simp add: feed_reader_append)
  with h show ?thesis
    by (auto split: prod.splits bool.splits)
qed

lemma reader_overflow_1of256:
  assumes "length bs = Suc (unat max_len)" "1 \<le> k"
  shows "\<not> fst (feed_reader (replicate k 1 @ reader_samples (CodeIso15693AsReader256 bs))
                (DecodeReaderInit mem max_len d0)) \<and>
         r_output (snd (feed_reader (replicate k 1 @ reader_samples (CodeIso15693AsReader256 bs))
                (DecodeReaderInit mem max_len d0))) (unat max_len) = last bs \<and>
         r_byteCount (snd (feed_reader (replicate k 1 @ reader_samples (CodeIso15693AsReader256 bs))
                (DecodeReaderInit mem max_len d0))) = uint max_len + 1"
proof -
  let ?init = "DecodeReaderInit mem max_len d0"
  let ?d1 = "?init\<lparr>r_state := STATE_READER_AWAIT_1ST_FALLING_EDGE_OF_SOF\<rparr>"
  let ?d2 = "?d1\<lparr>r_posCount := 0, r_bitCount := 0, r_byteCount := 0, r_sum1 := 1,
              r_Coding := CODING_1_OUT_OF_256,
              r_state := STATE_READER_RECEIVE_DATA_1_OUT_OF_256\<rparr>"
  from assms(1) obtain cs c where bs: "bs = cs @ [c]" and cs: "length cs = unat max_len"
    by (cases bs rule: rev_cases) simp_all
  let ?data = "smp (concat (map (\<lambda>c. slots256 c 256) cs))"
  let ?last = "smp (slots256 c 256)"
  let ?eof = "reader_samples [0x20]"
  from assms(1) obtain b bs' where b: "bs = b # bs'" by (cases bs) simp_all
  obtain ys where "slots256 b 256 = False # ys"
    using slots256_hd [of 256 b] by auto
  then obtain xs where hd: "?data @ ?last @ ?eof = 1 # xs"
    using b bs by (cases cs) (auto simp: smp_def rep4)
  have i: "r_state ?init = STATE_READER_UNSYNCD"
    by (simp add: DecodeReaderInit_def)
  have split: "replicate k 1 @ reader_samples (CodeIso15693AsReader256 bs)
                 = replicate k 1 @ reader_samples [0x81] @ ?data @ ?last @ ?eof"
    by (simp add: reader_samples_smp CodeIso15693AsReader256_bits smp_append bs)
  have run: "feed_reader (replicate k 1 @ reader_samples (CodeIso15693AsReader256 bs)) ?init
               = feed_reader (?data @ ?last @ ?eof) ?d2"
    unfolding split hd
    by (subst idle_start [OF i assms(2)], subst sof_1of256_then) simp_all
  have r0: "receiving STATE_READER_RECEIVE_DATA_1_OUT_OF_256 (unat max_len) ?d2 0 []"
    by (simp add: receiving_def DecodeReaderInit_def)
  let ?d3 = "snd (feed_reader ?data ?d2)"
  from data_1of256 [OF r0, of cs] cs
  have d: "\<not> fst (feed_reader ?data ?d2)"
    "receiving STATE_READER_RECEIVE_DATA_1_OUT_OF_256 (unat max_len) ?d3 (unat max_len) cs"
    by simp_all
  let ?d4 = "snd (feed_reader ?last ?d3)"
  note o = byte_1of256_overflow [OF d(2), of c]
  from o have u: "r_state ?d4 = STATE_READER_UNSYNCD" by simp
  from unsynced_eof [OF u] o d(1)
  show ?thesis
    unfolding run by (simp add: feed_reader_append bs)
qed

subsection \<open>Claims\<close>

text \<open>
  C2. The page index is not kept within \<open>[0, max_page]\<close>: in full simulation of a card with
  more than one page, a PageSel received while the card is selected stores the page byte of
  the frame as the current page, whatever its value, and aims the cipher state pointer at
  that index of the debit-key array. The run below selects page 255 of a card whose
  \<open>max_page\<close> is 7.
\<close>

theorem pagesel_sets_any_page:
  assumes "ICLASS_CMD_PAGESEL E \<noteq> 0x0C" "ICLASS_CMD_PAGESEL E \<noteq> 0x06"
      and "chip_state s = SELECTED" "max_page s > 0"
  shows "current_page (fst (doIClassSimulation_step E ICLASS_SIM_MODE_FULL s
                              [ICLASS_CMD_PAGESEL E, pg, x, y])) = pg \<and>
         cipher_state (fst (doIClassSimulation_step E ICLASS_SIM_MODE_FULL s
                              [ICLASS_CMD_PAGESEL E, pg, x, y])) = (Kd, unat pg) \<and>
         max_page (fst (doIClassSimulation_step E ICLASS_SIM_MODE_FULL s
                              [ICLASS_CMD_PAGESEL E, pg, x, y])) = max_page s"
  using assms by (simp add: step_pagesel on_pagesel_def Let_def)


theorem pagesel_page_255_of_8:
  "fst (doIClassSimulation_loop demo_externals ICLASS_SIM_MODE_FULL (demo_init ICLASS_SIM_MODE_FULL)
         [[0x0a], [0x0c], 0x81 # rotateCSN default_csn])
     = (demo_init ICLASS_SIM_MODE_FULL)\<lparr>chip_state := SELECTED\<rparr> \<and>
   max_page ((demo_init ICLASS_SIM_MODE_FULL)\<lparr>chip_state := SELECTED\<rparr>) = 7 \<and>
   current_page (fst (doIClassSimulation_step demo_externals ICLASS_SIM_MODE_FULL
                        ((demo_init ICLASS_SIM_MODE_FULL)\<lparr>chip_state := SELECTED\<rparr>)
                        [0x84, 0xFF, 0x00, 0x00])) = 0xFF \<and>
   cipher_state (fst (doIClassSimulation_step demo_externals ICLASS_SIM_MODE_FULL
                        ((demo_init ICLASS_SIM_MODE_FULL)\<lparr>chip_state := SELECTED\<rparr>)
                        [0x84, 0xFF, 0x00, 0x00])) = (Kd, 255)"
proof -
  let ?s = "(demo_init ICLASS_SIM_MODE_FULL)\<lparr>chip_state := SELECTED\<rparr>"
  have i: "chip_state (demo_init ICLASS_SIM_MODE_FULL) = IDLE"
    "\<not> exitLoop (demo_init ICLASS_SIM_MODE_FULL)"
    by (simp_all add: demo_init_def init_fields)
  have r: "fst (doIClassSimulation_loop demo_externals ICLASS_SIM_MODE_FULL
             (demo_init ICLASS_SIM_MODE_FULL) [[0x0a], [0x0c], 0x81 # rotateCSN default_csn]) = ?s"
    by (subst loop_select [OF demo_init_emulates i]) simp
  have p: "ICLASS_CMD_PAGESEL demo_externals = 0x84"
    by (simp add: demo_externals_def)
  have h: "ICLASS_CMD_PAGESEL demo_externals \<noteq> 0x0C" "ICLASS_CMD_PAGESEL demo_externals \<noteq> 0x06"
    "chip_state ?s = SELECTED" "max_page ?s > 0"
    by (simp_all add: p demo_max_page)
  from pagesel_sets_any_page [OF h, where pg = 255 and x = 0 and y = 0] r show ?thesis
    by (simp add: p demo_max_page)
qed


text \<open>
  C3. The dispatcher does not check a CRC. It acts on a frame only if the first byte and the
  length match an entry of the command table, and a frame that matches none is dropped with
  the state unchanged and nothing sent; the last two bytes of a four-byte frame and of an
  Update of twelve bytes, where the CRC travels, have no influence on what the dispatcher
  does. The read request for block 1 with the trailer \<open>00 00\<close>, which is not its CRC, is
  answered with the configuration block.
\<close>

theorem dispatcher_acts_on_table_frames_only:
  "(\<not> in_command_table E m f \<longrightarrow> doIClassSimulation_step E m s f = (s, None)) \<and>
   doIClassSimulation_step E m s [c, b, x, y] = doIClassSimulation_step E m s [c, b, x', y'] \<and>
   (length d = 8 \<longrightarrow>
      doIClassSimulation_step E m s (c # b # d @ [x, y]) =
      doIClassSimulation_step E m s (c # b # d @ [x', y']))"
  using step_outside_table [of E m f s] step_ignores_crc4 [of E m s c b x y x' y']
    update_ignores_trailer [of d E m s c b x y x' y']
  by blast


theorem dispatcher_table_witness:
  "\<not> in_command_table demo_externals ICLASS_SIM_MODE_FULL [0xFF, 0x00] \<and>
   doIClassSimulation_step demo_externals ICLASS_SIM_MODE_FULL (demo_init ICLASS_SIM_MODE_FULL)
     [0xFF, 0x00] = (demo_init ICLASS_SIM_MODE_FULL, None) \<and>
   length (replicate 8 (0::byte)) = 8"
proof -
  have n: "\<not> in_command_table demo_externals ICLASS_SIM_MODE_FULL [0xFF, 0x00]"
    by (simp add: in_command_table_def demo_externals_def cmd_defs)
  from dispatcher_acts_on_table_frames_only
    [of demo_externals ICLASS_SIM_MODE_FULL "[0xFF, 0x00]" "demo_init ICLASS_SIM_MODE_FULL"] n
  show ?thesis by simp
qed


theorem read_with_bad_crc_answered:
  "ComputeCrc14443_ICLASS [0x01] = (0xfa, 0x22) \<and>
   ComputeCrc14443_ICLASS [0x0c, 0x01] = (0x06, 0xf9) \<and>
   map (map_option trace_data)
     (snd (doIClassSimulation_loop demo_externals ICLASS_SIM_MODE_EXIT_AFTER_MAC
        (demo_init ICLASS_SIM_MODE_EXIT_AFTER_MAC)
        [[0x0a], [0x0c], 0x81 # rotateCSN default_csn, [0x0c, 0x01, 0x00, 0x00]])) ! 3
     = Some (default_conf @ crc_bytes demo_externals default_conf)"
proof -
  let ?s0 = "demo_init ICLASS_SIM_MODE_EXIT_AFTER_MAC"
  have i: "chip_state ?s0 = IDLE" "\<not> exitLoop ?s0"
    by (simp_all add: demo_init_def init_fields)
  have c: "conf_block ?s0 = default_conf @ crc_bytes demo_externals default_conf"
    by (simp add: demo_init_def init_conf_block default_conf_def del: append.simps)
  have "snd (doIClassSimulation_loop demo_externals ICLASS_SIM_MODE_EXIT_AFTER_MAC ?s0
        [[0x0a], [0x0c], 0x81 # rotateCSN default_csn, [0x0c, 0x01, 0x00, 0x00]]) ! 3
        = send_coded (default_conf @ crc_bytes demo_externals default_conf)"
    by (subst loop_select [OF demo_init_emulates i])
       (simp add: i step_read split_beta on_read_def c)
  moreover have "ComputeCrc14443_ICLASS [0x01] = (0xfa, 0x22)"
    "ComputeCrc14443_ICLASS [0x0c, 0x01] = (0x06, 0xf9)"
    by (simp_all add: ComputeCrc14443_ICLASS_def UpdateCrc14443_def)
  ultimately show ?thesis
    by (subst loop_select [OF demo_init_emulates i])
       (simp add: i step_read split_beta on_read_def c send_coded_def send_def)
qed


text \<open>
  C5. Starting from the Idle state of a session that emulates the card \<open>csn\<close>, ActivateAll
  (one byte) is answered with the SOF and leads to Activated; Identify (one byte) is answered
  with the anticollision CSN and its CRC; Select with the eight bytes of the anticollision
  CSN (nine bytes) is answered with the eight bytes of the real CSN followed by the two bytes
  of its CRC and leads to Selected; Select with any other eight bytes is not answered and
  leads to Idle. Every answer is given with the bytes that are logged and the waveform that
  is transmitted.
\<close>

theorem select_sequence_reaches_selected:
  assumes "emulates E csn s" and "chip_state s = IDLE"
  shows "doIClassSimulation_step E m s [0x0A]
           = (s\<lparr>chip_state := ACTIVATED\<rparr>,
              Some \<lparr>modulated_response = CodeIClassTagSOF, trace_data = []\<rparr>) \<and>
         doIClassSimulation_step E m (s\<lparr>chip_state := ACTIVATED\<rparr>) [0x0C]
           = (s\<lparr>chip_state := ACTIVATED\<rparr>,
              Some \<lparr>modulated_response =
                      CodeIso15693AsTag (rotateCSN csn @ crc_bytes E (rotateCSN csn)),
                    trace_data = rotateCSN csn @ crc_bytes E (rotateCSN csn)\<rparr>) \<and>
         doIClassSimulation_step E m (s\<lparr>chip_state := ACTIVATED\<rparr>) (0x81 # rotateCSN csn)
           = (s\<lparr>chip_state := SELECTED\<rparr>,
              Some \<lparr>modulated_response = CodeIso15693AsTag (csn @ crc_bytes E csn),
                    trace_data = csn @ crc_bytes E csn\<rparr>) \<and>
         length csn = 8 \<and> length (crc_bytes E csn) = 2 \<and>
         (\<forall>p. length p = 8 \<and> p \<noteq> rotateCSN csn \<longrightarrow>
            doIClassSimulation_step E m (s\<lparr>chip_state := ACTIVATED\<rparr>) (0x81 # p)
              = (s\<lparr>chip_state := IDLE\<rparr>, None))"
proof -
  from assms(1) have csn: "length csn = 8" "csn_data s = csn @ crc_bytes E csn"
    "anticoll_data s = rotateCSN csn @ crc_bytes E (rotateCSN csn)"
    by (simp_all add: emulates_def)
  have a: "doIClassSimulation_step E m s [0x0A]
             = (s\<lparr>chip_state := ACTIVATED\<rparr>,
                Some \<lparr>modulated_response = CodeIClassTagSOF, trace_data = []\<rparr>)"
    using assms(2) by (simp add: step_actall on_actall_def resp_sof_def send_def)
  have b: "doIClassSimulation_step E m (s\<lparr>chip_state := ACTIVATED\<rparr>) [0x0C]
             = (s\<lparr>chip_state := ACTIVATED\<rparr>,
                Some \<lparr>modulated_response =
                        CodeIso15693AsTag (rotateCSN csn @ crc_bytes E (rotateCSN csn)),
                      trace_data = rotateCSN csn @ crc_bytes E (rotateCSN csn)\<rparr>)"
    by (simp add: step_identify on_identify_def csn send_coded_def send_def)
  have c: "doIClassSimulation_step E m (s\<lparr>chip_state := ACTIVATED\<rparr>) (0x81 # rotateCSN csn)
             = (s\<lparr>chip_state := SELECTED\<rparr>,
                Some \<lparr>modulated_response = CodeIso15693AsTag (csn @ crc_bytes E csn),
                      trace_data = csn @ crc_bytes E csn\<rparr>)"
    by (simp add: step_select rotateCSN_length on_select_def csn send_coded_def send_def)
  have l: "length (crc_bytes E csn) = 2"
    by (simp add: crc_bytes_def)
  have d: "doIClassSimulation_step E m (s\<lparr>chip_state := ACTIVATED\<rparr>) (0x81 # p)
             = (s\<lparr>chip_state := IDLE\<rparr>, None)"
    if "length p = 8" "p \<noteq> rotateCSN csn" for p
    using that by (simp add: step_select on_select_def csn rotateCSN_length)
  from a b c csn(1) l d show ?thesis by blast
qed

theorem select_sequence_witness:
  "emulates demo_externals default_csn (demo_init ICLASS_SIM_MODE_CSN) \<and>
   chip_state (demo_init ICLASS_SIM_MODE_CSN) = IDLE \<and>
   snd (doIClassSimulation_step demo_externals ICLASS_SIM_MODE_CSN
      (demo_init ICLASS_SIM_MODE_CSN) [0x0A])
     = Some \<lparr>modulated_response = CodeIClassTagSOF, trace_data = []\<rparr> \<and>
   map_option trace_data (snd (doIClassSimulation_step demo_externals ICLASS_SIM_MODE_CSN
      ((demo_init ICLASS_SIM_MODE_CSN)\<lparr>chip_state := ACTIVATED\<rparr>) [0x0C]))
     = Some [0xe0, 0x83, 0x5d, 0xf1, 0xfe, 0x5f, 0x02, 0x7c, 0x55, 0x3f] \<and>
   map_option trace_data (snd (doIClassSimulation_step demo_externals ICLASS_SIM_MODE_CSN
      ((demo_init ICLASS_SIM_MODE_CSN)\<lparr>chip_state := ACTIVATED\<rparr>)
      [0x81, 0xe0, 0x83, 0x5d, 0xf1, 0xfe, 0x5f, 0x02, 0x7c]))
     = Some [0x03, 0x1f, 0xec, 0x8a, 0xf7, 0xff, 0x12, 0xe0, 0xae, 0x86] \<and>
   chip_state (fst (doIClassSimulation_step demo_externals ICLASS_SIM_MODE_CSN
      ((demo_init ICLASS_SIM_MODE_CSN)\<lparr>chip_state := ACTIVATED\<rparr>)
      [0x81, 0xe0, 0x83, 0x5d, 0xf1, 0xfe, 0x5f, 0x02, 0x7c]))
     = SELECTED \<and>
   doIClassSimulation_step demo_externals ICLASS_SIM_MODE_CSN
      ((demo_init ICLASS_SIM_MODE_CSN)\<lparr>chip_state := ACTIVATED\<rparr>) (0x81 # replicate 8 0)
     = ((demo_init ICLASS_SIM_MODE_CSN)\<lparr>chip_state := IDLE\<rparr>, None)"
proof -
  have e: "emulates demo_externals default_csn (demo_init ICLASS_SIM_MODE_CSN)"
    by (rule demo_init_emulates)
  have i: "chip_state (demo_init ICLASS_SIM_MODE_CSN) = IDLE"
    by (simp add: demo_init_def init_fields)
  have n: "length (replicate 8 (0::byte)) = 8 \<and> replicate 8 0 \<noteq> rotateCSN default_csn"
    unfolding rotateCSN_default by (simp add: numeral_eq_Suc)
  have r: "[0xe0, 0x83, 0x5d, 0xf1, 0xfe, 0x5f, 0x02, 0x7c] = rotateCSN default_csn"
    by (simp add: rotateCSN_default)
  have c: "rotateCSN default_csn @ crc_bytes demo_externals (rotateCSN default_csn) =
             [0xe0, 0x83, 0x5d, 0xf1, 0xfe, 0x5f, 0x02, 0x7c, 0x55, 0x3f]"
    "default_csn @ crc_bytes demo_externals default_csn =
             [0x03, 0x1f, 0xec, 0x8a, 0xf7, 0xff, 0x12, 0xe0, 0xae, 0x86]"
    unfolding rotateCSN_default crc_demo by (simp_all add: default_csn_def)
  from select_sequence_reaches_selected [OF e i, of ICLASS_SIM_MODE_CSN] n e i
  show ?thesis unfolding r c by simp
qed

text \<open>
  C6. Emulating the default CSN in plain CSN simulation, the frames \<open>0a\<close>, \<open>0c\<close> and
  \<open>81\<close> with the rotated CSN are answered with the SOF, the rotated CSN with its CRC and
  the real CSN with its CRC; the request to read block 1 is then not answered. In the
  simulation mode of the reader attack (exit after MAC) the same four frames are answered
  and the fourth answer is the configuration block with its CRC.
\<close>

theorem default_csn_scenario:
  "map_option snd (SimulateIClass E ICLASS_SIM_MODE_CSN_DEFAULT datain emu kd0 kc0 scenario_frames)
     = Some [send CodeIClassTagSOF [],
             send_coded (rotateCSN default_csn @ crc_bytes E (rotateCSN default_csn)),
             send_coded (default_csn @ crc_bytes E default_csn),
             None] \<and>
   snd (doIClassSimulation_loop E ICLASS_SIM_MODE_EXIT_AFTER_MAC
          (doIClassSimulation_init E ICLASS_SIM_MODE_EXIT_AFTER_MAC
             (mem_write emu 0 default_csn) rmb kd0 kc0) scenario_frames)
     = [send CodeIClassTagSOF [],
        send_coded (rotateCSN default_csn @ crc_bytes E (rotateCSN default_csn)),
        send_coded (default_csn @ crc_bytes E default_csn),
        send_coded (default_conf @ crc_bytes E default_conf)]"
proof
  show "map_option snd (SimulateIClass E ICLASS_SIM_MODE_CSN_DEFAULT datain emu kd0 kc0 scenario_frames)
     = Some [send CodeIClassTagSOF [],
             send_coded (rotateCSN default_csn @ crc_bytes E (rotateCSN default_csn)),
             send_coded (default_csn @ crc_bytes E default_csn),
             None]"
    by (simp add: SimulateIClass_def scenario_loop [OF refl] on_read_def)
  show "snd (doIClassSimulation_loop E ICLASS_SIM_MODE_EXIT_AFTER_MAC
          (doIClassSimulation_init E ICLASS_SIM_MODE_EXIT_AFTER_MAC
             (mem_write emu 0 default_csn) rmb kd0 kc0) scenario_frames)
     = [send CodeIClassTagSOF [],
        send_coded (rotateCSN default_csn @ crc_bytes E (rotateCSN default_csn)),
        send_coded (default_csn @ crc_bytes E default_csn),
        send_coded (default_conf @ crc_bytes E default_conf)]"
    by (simp add: scenario_loop [OF refl] on_read_def init_conf_block default_conf_def
             del: append.simps)
qed


theorem default_csn_read_unanswered:
  "map_option (map (map_option trace_data) \<circ> snd)
     (SimulateIClass demo_externals ICLASS_SIM_MODE_CSN_DEFAULT [] (\<lambda>_. 0)
        (\<lambda>_. ([], [])) (\<lambda>_. ([], []))
        [[0x0a], [0x0c], [0x81, 0xe0, 0x83, 0x5d, 0xf1, 0xfe, 0x5f, 0x02, 0x7c],
         [0x0c, 0x01, 0xfa, 0x22]])
   = Some [Some [],
           Some [0xe0, 0x83, 0x5d, 0xf1, 0xfe, 0x5f, 0x02, 0x7c, 0x55, 0x3f],
           Some [0x03, 0x1f, 0xec, 0x8a, 0xf7, 0xff, 0x12, 0xe0, 0xae, 0x86],
           None]"
proof -
  have "map_option snd (SimulateIClass demo_externals ICLASS_SIM_MODE_CSN_DEFAULT [] (\<lambda>_. 0)
        (\<lambda>_. ([], [])) (\<lambda>_. ([], [])) scenario_frames)
     = Some [send CodeIClassTagSOF [],
             send_coded (rotateCSN default_csn @ crc_bytes demo_externals (rotateCSN default_csn)),
             send_coded (default_csn @ crc_bytes demo_externals default_csn),
             None]"
    by (simp add: SimulateIClass_def scenario_loop [OF refl] on_read_def)
  then show ?thesis
    unfolding scenario_frames_def rotateCSN_default crc_demo
    by (auto simp: send_def send_coded_def default_csn_def)
qed





text \<open>
  C9. The two frequency windows of the FSK decoder are not mutually exclusive: the sample
  value 30 passes both tests. It is the only such value: every other sample value passes
  at most one of them, and a value passes one of them exactly when it lies in 26..34.
\<close>

theorem FREQ_windows_both_at_30: "FREQ_IS_484 30 \<and> FREQ_IS_424 30"
  by (simp add: FREQ_IS_484_def FREQ_IS_424_def)

theorem FREQ_windows_overlap_only_at_30:
  "(FREQ_IS_484 f \<and> FREQ_IS_424 f) = (f = 30) \<and>
   (FREQ_IS_484 f \<or> FREQ_IS_424 f) = (26 \<le> f \<and> f \<le> 34)"
proof
  show "(FREQ_IS_484 f \<and> FREQ_IS_424 f) = (f = 30)"
    unfolding FREQ_IS_484_def FREQ_IS_424_def by auto
  show "(FREQ_IS_484 f \<or> FREQ_IS_424 f) = (26 \<le> f \<and> f \<le> 34)"
    unfolding FREQ_IS_484_def FREQ_IS_424_def by (auto simp: word_le_nat_alt)
qed

text \<open>
  C10. Byte \<open>i\<close> of the anticollision CSN is \<open>(csn[i] >> 3) | (csn[(i+1) mod 8] << 5)\<close>;
  the map is a bijection on the strings of eight bytes, so two serial numbers with the same
  anticollision form are equal, and the Select of an activated card that emulates \<open>csn\<close>
  succeeds for the anticollision form of \<open>csn'\<close> exactly when \<open>csn' = csn\<close>.
\<close>

theorem rotateCSN_rotation_bijective:
  assumes "emulates E csn s" "chip_state s = ACTIVATED" "length csn' = 8"
  shows "(\<forall>i<8. rotateCSN csn ! i = drop_bit 3 (csn ! i) OR push_bit 5 (csn ! ((i + 1) mod 8))) \<and>
         bij_betw rotateCSN {c. length c = 8} {c. length c = 8} \<and>
         (rotateCSN csn' = rotateCSN csn) = (csn' = csn) \<and>
         (chip_state (fst (doIClassSimulation_step E m s (0x81 # rotateCSN csn'))) = SELECTED)
           = (csn' = csn)"
proof -
  from assms(1) have csn: "length csn = 8"
    "anticoll_data s = rotateCSN csn @ crc_bytes E (rotateCSN csn)"
    by (simp_all add: emulates_def)
  have inj: "(rotateCSN csn' = rotateCSN csn) = (csn' = csn)"
    using assms(3) csn(1) by (rule rotateCSN_inj)
  have sel: "(chip_state (fst (doIClassSimulation_step E m s (0x81 # rotateCSN csn'))) = SELECTED)
           = (csn' = csn)"
    using assms(2) inj
    by (simp add: step_select rotateCSN_length on_select_def csn)
  from rotateCSN_nth [of _ csn] rotateCSN_bij inj sel show ?thesis by blast
qed


theorem rotateCSN_witness:
  "emulates demo_externals default_csn ((demo_init ICLASS_SIM_MODE_CSN)\<lparr>chip_state := ACTIVATED\<rparr>) \<and>
   chip_state ((demo_init ICLASS_SIM_MODE_CSN)\<lparr>chip_state := ACTIVATED\<rparr>) = ACTIVATED \<and>
   length default_csn = 8 \<and>
   rotateCSN default_csn = [0xe0, 0x83, 0x5d, 0xf1, 0xfe, 0x5f, 0x02, 0x7c] \<and>
   chip_state (fst (doIClassSimulation_step demo_externals ICLASS_SIM_MODE_CSN
      ((demo_init ICLASS_SIM_MODE_CSN)\<lparr>chip_state := ACTIVATED\<rparr>) (0x81 # rotateCSN default_csn)))
     = SELECTED"
proof -
  have e: "emulates demo_externals default_csn
             ((demo_init ICLASS_SIM_MODE_CSN)\<lparr>chip_state := ACTIVATED\<rparr>)"
    using demo_init_emulates [of ICLASS_SIM_MODE_CSN] by (simp add: emulates_def)
  have a: "chip_state ((demo_init ICLASS_SIM_MODE_CSN)\<lparr>chip_state := ACTIVATED\<rparr>) = ACTIVATED"
    by simp
  from rotateCSN_rotation_bijective [OF e a default_csn_length, of ICLASS_SIM_MODE_CSN] e
  show ?thesis by (simp add: rotateCSN_default default_csn_length)
qed

text \<open>
  C4. Round trip in the reader direction, for both codings. The decoder starts Unsynced and
  waits for unmodulated carrier before it looks for a start of frame, so a frame whose first
  sample is the first sample the decoder sees is not decoded. A frame \<open>bs\<close> of at least one
  byte is encoded by \<^verbatim>\<open>CodeIso15693AsReader\<close> or \<^verbatim>\<open>CodeIso15693AsReader256\<close>, sent
  (four samples per bit of the send buffer) after at least one sample of unmodulated
  carrier and fed sample by sample to a freshly initialised decoder whose capacity
  \<open>max_len\<close>, a 16-bit number, is at least \<open>length bs\<close>. The decoder reports a frame, and
  the frame is \<open>bs\<close>. Whatever follows the frame on the air (\<open>rest\<close>) is not read. With a
  capacity of 32 or more this covers every frame of 1 to 32 bytes.
\<close>

theorem reader_encode_decode_roundtrip:
  assumes "1 \<le> length bs" "length bs \<le> unat max_len" "1 \<le> k"
  shows "fst (feed_reader (replicate k 1 @ reader_samples (CodeIso15693AsReader bs) @ rest)
                (DecodeReaderInit mem max_len d0)) \<and>
         reader_frame (snd (feed_reader
                (replicate k 1 @ reader_samples (CodeIso15693AsReader bs) @ rest)
                (DecodeReaderInit mem max_len d0))) = bs \<and>
         fst (feed_reader (replicate k 1 @ reader_samples (CodeIso15693AsReader256 bs) @ rest)
                (DecodeReaderInit mem max_len d0)) \<and>
         reader_frame (snd (feed_reader
                (replicate k 1 @ reader_samples (CodeIso15693AsReader256 bs) @ rest)
                (DecodeReaderInit mem max_len d0))) = bs"
  using roundtrip_1of4 [OF assms, of rest mem d0] roundtrip_1of256 [OF assms, of rest mem d0]
  by (intro conjI) (erule conjunct1, erule conjunct2, erule conjunct1, erule conjunct2)


theorem reader_encode_decode_roundtrip_witness:
  "1 \<le> length [0x26, 0x01, 0x00 :: byte] \<and>
   length [0x26, 0x01, 0x00 :: byte] \<le> unat (32 :: 16 word) \<and>
   fst (feed_reader (replicate 1 1 @ reader_samples (CodeIso15693AsReader [0x26, 0x01, 0x00]) @ [])
          (DecodeReaderInit (\<lambda>_. 0) 32 (DecodeReader_zero (\<lambda>_. 0)))) \<and>
   reader_frame (snd (feed_reader
          (replicate 1 1 @ reader_samples (CodeIso15693AsReader [0x26, 0x01, 0x00]) @ [])
          (DecodeReaderInit (\<lambda>_. 0) 32 (DecodeReader_zero (\<lambda>_. 0))))) = [0x26, 0x01, 0x00] \<and>
   fst (feed_reader (replicate 1 1 @ reader_samples (CodeIso15693AsReader256 [0x26, 0x01, 0x00]) @ [])
          (DecodeReaderInit (\<lambda>_. 0) 32 (DecodeReader_zero (\<lambda>_. 0)))) \<and>
   reader_frame (snd (feed_reader
          (replicate 1 1 @ reader_samples (CodeIso15693AsReader256 [0x26, 0x01, 0x00]) @ [])
          (DecodeReaderInit (\<lambda>_. 0) 32 (DecodeReader_zero (\<lambda>_. 0))))) = [0x26, 0x01, 0x00]"
  using reader_encode_decode_roundtrip [where bs = "[0x26, 0x01, 0x00]" and max_len = 32
          and k = 1 and rest = "[]" and mem = "\<lambda>_. 0" and ?d0.0 = "DecodeReader_zero (\<lambda>_. 0)"]
  by simp


theorem reader_frame_without_carrier_lost:
  "\<not> fst (feed_reader (reader_samples (CodeIso15693AsReader [0x26, 0x01, 0x00]))
           (DecodeReaderInit (\<lambda>_. 0) 32 (DecodeReader_zero (\<lambda>_. 0)))) \<and>
   reader_frame (snd (feed_reader (reader_samples (CodeIso15693AsReader [0x26, 0x01, 0x00]))
           (DecodeReaderInit (\<lambda>_. 0) 32 (DecodeReader_zero (\<lambda>_. 0))))) = [] \<and>
   \<not> fst (feed_reader (1 # reader_samples (CodeIso15693AsReader [0x26, 0x01, 0x00]))
           (DecodeReaderInit (\<lambda>_. 0) 2 (DecodeReader_zero (\<lambda>_. 0))))"
proof -
  have a: "feed_reader (reader_samples (CodeIso15693AsReader [0x26, 0x01, 0x00]))
             (DecodeReaderInit (\<lambda>_. 0) 32 (DecodeReader_zero (\<lambda>_. 0))) =
           (False, (DecodeReaderInit (\<lambda>_. 0) 32 (DecodeReader_zero (\<lambda>_. 0)))
                     \<lparr>r_state := STATE_READER_AWAIT_2ND_FALLING_EDGE_OF_SOF, r_posCount := 24\<rparr>)"
    by (simp add: CodeIso15693AsReader_eq sym4_def one_of_4_pattern_def reader_samples_smp
          tosend_bits_def upt8 smp_def rep4 Handle15693SampleFromReader_def
          receive_1_out_of_4_def reader_accumulate_def DecodeReaderReset_def Let_def
          DecodeReaderInit_def DecodeReader_zero_def)
  have b: "\<not> fst (feed_reader (1 # reader_samples (CodeIso15693AsReader [0x26, 0x01, 0x00]))
                  (DecodeReaderInit (\<lambda>_. 0) 2 (DecodeReader_zero (\<lambda>_. 0))))"
    using reader_overflow_1of4 [where bs = "[0x26, 0x01, 0x00]" and max_len = 2 and k = 1
            and mem = "\<lambda>_. 0" and ?d0.0 = "DecodeReader_zero (\<lambda>_. 0)"]
    by simp
  show ?thesis
    unfolding a using b
    by (simp add: reader_frame_def DecodeReaderInit_def DecodeReader_zero_def)
qed

text \<open>
  C8. The decoder reports a frame only at an End-Of-Frame with at least one stored byte.
  First, for every decoder state \<open>d\<close> and sample \<open>b\<close>: if \<^verbatim>\<open>Handle15693SampleFromReader\<close>
  returns true, the decoder was in one of the two receive states at the eighth sample of a
  slot, the two half-slot sums show the End-Of-Frame pattern, \<open>byteCount\<close> is not zero, and
  the decoder is left in the Unsynced state. Second, for every start state \<open>d1\<close> and every
  sample stream \<open>ys @ [b1]\<close>: if no frame was reported on \<open>ys\<close> and the End-Of-Frame test
  fires on the last sample \<open>b1\<close> while \<open>byteCount\<close> is zero, no frame is reported and the
  decoder is left in the Unsynced state. Third, for every receive state \<open>d'\<close> at a slot
  boundary and every eight samples \<open>es\<close>: a frame is reported exactly when \<open>es\<close> is an
  End-Of-Frame slot and \<open>byteCount\<close> is not zero.
\<close>

theorem frame_complete_only_after_eof:
  "(fst (Handle15693SampleFromReader b d) \<longrightarrow>
      (r_state d = STATE_READER_RECEIVE_DATA_1_OUT_OF_4 \<or>
       r_state d = STATE_READER_RECEIVE_DATA_1_OUT_OF_256) \<and>
      r_posCount d = 7 \<and> r_sum1 d \<le> 1 \<and> 3 \<le> r_sum2 d + nz b \<and> r_byteCount d \<noteq> 0 \<and>
      r_state (snd (Handle15693SampleFromReader b d)) = STATE_READER_UNSYNCD) \<and>
   (\<not> fst (feed_reader ys d1) \<and>
    (r_state (snd (feed_reader ys d1)) = STATE_READER_RECEIVE_DATA_1_OUT_OF_4 \<or>
     r_state (snd (feed_reader ys d1)) = STATE_READER_RECEIVE_DATA_1_OUT_OF_256) \<and>
    r_posCount (snd (feed_reader ys d1)) = 7 \<and>
    r_sum1 (snd (feed_reader ys d1)) \<le> 1 \<and>
    3 \<le> r_sum2 (snd (feed_reader ys d1)) + nz b1 \<and>
    r_byteCount (snd (feed_reader ys d1)) = 0 \<longrightarrow>
      \<not> fst (feed_reader (ys @ [b1]) d1) \<and>
      r_state (snd (feed_reader (ys @ [b1]) d1)) = STATE_READER_UNSYNCD) \<and>
   ((r_state d' = STATE_READER_RECEIVE_DATA_1_OUT_OF_4 \<or>
     r_state d' = STATE_READER_RECEIVE_DATA_1_OUT_OF_256) \<and>
    r_posCount d' = 0 \<and> length es = 8 \<longrightarrow>
      fst (feed_reader es d') = (eof_slot es \<and> r_byteCount d' \<noteq> 0) \<and>
      (eof_slot es \<and> r_byteCount d' = 0 \<longrightarrow>
         r_state (snd (feed_reader es d')) = STATE_READER_UNSYNCD))"
proof -
  have a: "(r_state d = STATE_READER_RECEIVE_DATA_1_OUT_OF_4 \<or>
            r_state d = STATE_READER_RECEIVE_DATA_1_OUT_OF_256) \<and>
           r_posCount d = 7 \<and> r_sum1 d \<le> 1 \<and> 3 \<le> r_sum2 d + nz b \<and> r_byteCount d \<noteq> 0 \<and>
           r_state (snd (Handle15693SampleFromReader b d)) = STATE_READER_UNSYNCD"
    if "fst (Handle15693SampleFromReader b d)"
    using handle_true [OF that] by simp
  have c: "\<not> fst (feed_reader (ys @ [b1]) d1) \<and>
           r_state (snd (feed_reader (ys @ [b1]) d1)) = STATE_READER_UNSYNCD"
    if "\<not> fst (feed_reader ys d1) \<and>
        (r_state (snd (feed_reader ys d1)) = STATE_READER_RECEIVE_DATA_1_OUT_OF_4 \<or>
         r_state (snd (feed_reader ys d1)) = STATE_READER_RECEIVE_DATA_1_OUT_OF_256) \<and>
        r_posCount (snd (feed_reader ys d1)) = 7 \<and>
        r_sum1 (snd (feed_reader ys d1)) \<le> 1 \<and>
        3 \<le> r_sum2 (snd (feed_reader ys d1)) + nz b1 \<and>
        r_byteCount (snd (feed_reader ys d1)) = 0"
    using that by (intro stream_eof_no_bytes) simp_all
  have b: "fst (feed_reader es d') = (eof_slot es \<and> r_byteCount d' \<noteq> 0) \<and>
           (eof_slot es \<and> r_byteCount d' = 0 \<longrightarrow>
              r_state (snd (feed_reader es d')) = STATE_READER_UNSYNCD)"
    if "(r_state d' = STATE_READER_RECEIVE_DATA_1_OUT_OF_4 \<or>
         r_state d' = STATE_READER_RECEIVE_DATA_1_OUT_OF_256) \<and>
        r_posCount d' = 0 \<and> length es = 8"
    using that by (intro slot_frame_iff) simp_all
  from a b c show ?thesis by blast
qed


theorem frame_complete_witness:
  "fst (Handle15693SampleFromReader 1
          ((DecodeReaderInit (\<lambda>_. 0) 32 (DecodeReader_zero (\<lambda>_. 0)))
             \<lparr>r_state := STATE_READER_RECEIVE_DATA_1_OUT_OF_4, r_posCount := 7,
              r_sum1 := 0, r_sum2 := 3, r_byteCount := 1\<rparr>)) \<and>
   r_state (snd (Handle15693SampleFromReader 1
          ((DecodeReaderInit (\<lambda>_. 0) 32 (DecodeReader_zero (\<lambda>_. 0)))
             \<lparr>r_state := STATE_READER_RECEIVE_DATA_1_OUT_OF_4, r_posCount := 7,
              r_sum1 := 0, r_sum2 := 3, r_byteCount := 1\<rparr>))) = STATE_READER_UNSYNCD \<and>
   feed_reader (1 # reader_samples [0x84] @ [1, 0, 0, 0, 1, 1, 1])
      (DecodeReaderInit (\<lambda>_. 0) 32 (DecodeReader_zero (\<lambda>_. 0))) =
     (False, (DecodeReaderInit (\<lambda>_. 0) 32 (DecodeReader_zero (\<lambda>_. 0)))
               \<lparr>r_state := STATE_READER_RECEIVE_DATA_1_OUT_OF_4, r_posCount := 7,
                r_sum1 := 1, r_sum2 := 3\<rparr>) \<and>
   \<not> fst (feed_reader ((1 # reader_samples [0x84] @ [1, 0, 0, 0, 1, 1, 1]) @ [1])
            (DecodeReaderInit (\<lambda>_. 0) 32 (DecodeReader_zero (\<lambda>_. 0)))) \<and>
   r_state (snd (feed_reader ((1 # reader_samples [0x84] @ [1, 0, 0, 0, 1, 1, 1]) @ [1])
            (DecodeReaderInit (\<lambda>_. 0) 32 (DecodeReader_zero (\<lambda>_. 0))))) =
     STATE_READER_UNSYNCD \<and>
   eof_slot [0, 0, 0, 0, 1, 1, 1, 1] \<and>
   r_byteCount ((DecodeReaderInit (\<lambda>_. 0) 32 (DecodeReader_zero (\<lambda>_. 0)))
             \<lparr>r_state := STATE_READER_RECEIVE_DATA_1_OUT_OF_4, r_posCount := 0\<rparr>) = 0 \<and>
   \<not> fst (feed_reader [0, 0, 0, 0, 1, 1, 1, 1]
            ((DecodeReaderInit (\<lambda>_. 0) 32 (DecodeReader_zero (\<lambda>_. 0)))
               \<lparr>r_state := STATE_READER_RECEIVE_DATA_1_OUT_OF_4, r_posCount := 0\<rparr>)) \<and>
   r_state (snd (feed_reader [0, 0, 0, 0, 1, 1, 1, 1]
            ((DecodeReaderInit (\<lambda>_. 0) 32 (DecodeReader_zero (\<lambda>_. 0)))
               \<lparr>r_state := STATE_READER_RECEIVE_DATA_1_OUT_OF_4, r_posCount := 0\<rparr>))) =
     STATE_READER_UNSYNCD"
proof -
  let ?i = "DecodeReaderInit (\<lambda>_. 0) 32 (DecodeReader_zero (\<lambda>_. 0))"
  let ?ys = "1 # reader_samples [0x84] @ [1, 0, 0, 0, 1, 1, 1]"
  have run: "feed_reader ?ys ?i =
     (False, ?i\<lparr>r_state := STATE_READER_RECEIVE_DATA_1_OUT_OF_4, r_posCount := 7,
                r_sum1 := 1, r_sum2 := 3\<rparr>)"
    by (simp add: reader_samples_smp sof4_bits smp_def rep4 Handle15693SampleFromReader_def
          receive_1_out_of_4_def reader_accumulate_def DecodeReaderReset_def Let_def
          DecodeReaderInit_def DecodeReader_zero_def)
  have h: "\<not> fst (feed_reader ?ys ?i) \<and>
    (r_state (snd (feed_reader ?ys ?i)) = STATE_READER_RECEIVE_DATA_1_OUT_OF_4 \<or>
     r_state (snd (feed_reader ?ys ?i)) = STATE_READER_RECEIVE_DATA_1_OUT_OF_256) \<and>
    r_posCount (snd (feed_reader ?ys ?i)) = 7 \<and>
    r_sum1 (snd (feed_reader ?ys ?i)) \<le> 1 \<and>
    3 \<le> r_sum2 (snd (feed_reader ?ys ?i)) + nz 1 \<and>
    r_byteCount (snd (feed_reader ?ys ?i)) = 0"
    unfolding run by (simp add: nz_def DecodeReaderInit_def)
  from frame_complete_only_after_eof
          [where b = 1
             and d = "?i\<lparr>r_state := STATE_READER_RECEIVE_DATA_1_OUT_OF_4, r_posCount := 7,
                         r_sum1 := 0, r_sum2 := 3, r_byteCount := 1\<rparr>"
             and ys = ?ys and ?d1.0 = ?i and ?b1.0 = 1
             and d' = "?i\<lparr>r_state := STATE_READER_RECEIVE_DATA_1_OUT_OF_4, r_posCount := 0\<rparr>"
             and es = "[0, 0, 0, 0, 1, 1, 1, 1]"] h run
  show ?thesis
    by (simp add: eof_slot_def nz_def Handle15693SampleFromReader_def receive_1_out_of_4_def
          reader_accumulate_def DecodeReaderInit_def DecodeReader_zero_def DecodeReaderReset_def
          Let_def)
qed

text \<open>
  C1. Both decoders store one byte at the index equal to the capacity: the store
  \<^verbatim>\<open>output[n] = shiftReg\<close> comes before the test \<^verbatim>\<open>n + 1 > max\<close>. With a capacity of one
  byte and the two-byte frame \<open>12 a5\<close>, the reader-direction decoder (in either coding)
  writes \<open>a5\<close> at index 1 and reports nothing, and the tag-direction decoder writes \<open>a5\<close> at
  index 1 and returns true.
\<close>

theorem decoders_store_at_capacity:
  "\<not> fst (feed_reader (1 # reader_samples (CodeIso15693AsReader [0x12, 0xA5]))
            (DecodeReaderInit (\<lambda>_. 0) 1 (DecodeReader_zero (\<lambda>_. 0)))) \<and>
   r_output (snd (feed_reader (1 # reader_samples (CodeIso15693AsReader [0x12, 0xA5]))
            (DecodeReaderInit (\<lambda>_. 0) 1 (DecodeReader_zero (\<lambda>_. 0))))) 1 = 0xA5 \<and>
   \<not> fst (feed_reader (1 # reader_samples (CodeIso15693AsReader256 [0x12, 0xA5]))
            (DecodeReaderInit (\<lambda>_. 0) 1 (DecodeReader_zero (\<lambda>_. 0)))) \<and>
   r_output (snd (feed_reader (1 # reader_samples (CodeIso15693AsReader256 [0x12, 0xA5]))
            (DecodeReaderInit (\<lambda>_. 0) 1 (DecodeReader_zero (\<lambda>_. 0))))) 1 = 0xA5 \<and>
   fst (feed_tag (tag_sof_samples @ tag_byte_samples 0x12 @ tag_byte_samples 0xA5) True
          (DecodeTagInit (\<lambda>_. 0) 1 (DecodeTag_zero (\<lambda>_. 0)))) \<and>
   t_output (snd (feed_tag (tag_sof_samples @ tag_byte_samples 0x12 @ tag_byte_samples 0xA5) True
          (DecodeTagInit (\<lambda>_. 0) 1 (DecodeTag_zero (\<lambda>_. 0))))) 1 = 0xA5"
  using reader_overflow_1of4 [where bs = "[0x12, 0xA5]" and max_len = 1 and k = 1
          and mem = "\<lambda>_. 0" and ?d0.0 = "DecodeReader_zero (\<lambda>_. 0)"]
        reader_overflow_1of256 [where bs = "[0x12, 0xA5]" and max_len = 1 and k = 1
          and mem = "\<lambda>_. 0" and ?d0.0 = "DecodeReader_zero (\<lambda>_. 0)"]
        tag_overflow_run
  by simp

end
